theory Spec2Isabelle
  imports Main "HOL-Library.Word" "HOL-Library.Multiset"
begin

section \<open>Data model\<close>

text \<open>
  The Go struct \<^verbatim>\<open>Migration\<close> (identical in \<^verbatim>\<open>migrate.go\<close> and in the
  \<^verbatim>\<open>MigrationService\<close> file). The field \<^verbatim>\<open>Id\<close> is written \<open>Id'\<close>, since
  \<open>Id\<close> is the identity relation of HOL. Go strings are byte sequences: \<open>string\<close>.
\<close>

record Migration =
  Id' :: string
  Script :: string
  RevertScript :: string
  Checksum :: string

text \<open>One row of the relation \<^verbatim>\<open>changelog (id, checksum, installedAt, revertscript)\<close>.
  The column \<^verbatim>\<open>installedAt\<close> is only ever used to order the rows, so the table is kept
  as a list with the most recently inserted row first; the nullable \<^verbatim>\<open>revertscript\<close> is
  always written by the program as a string.\<close>

record changelog_row =
  row_id :: string
  row_checksum :: string
  row_revertscript :: string

text \<open>The calls that reach the database, in the order the driver receives them.\<close>

datatype stmt =
    CreateTable
  | SelectChangelog
  | Begin
  | Exec string
  | Insert string string string
  | Delete string
  | Commit
  | Rollback

text \<open>
  The committed state of the database: the changelog rows (newest first), the state of
  the target schema (an arbitrary type \<open>'s\<close>), and the log of every call made so far.
  A database without the changelog relation is the one with no rows: every run begins
  with \<^verbatim>\<open>CREATE TABLE IF NOT EXISTS\<close>.
\<close>

record 's database =
  changelog :: "changelog_row list"
  schema :: 's
  trace :: "stmt list"

text \<open>
  What the program cannot decide: \<open>run\<close> is the effect of a script on the schema
  (\<open>None\<close> when the script fails), and \<open>fault n\<close> says that the call number \<open>n\<close>
  (counted from the start of the log) fails for a reason of the driver's own
  (connectivity, permissions). Scripts act on the schema only, a context is never
  cancelled, and locks are not modelled: a transaction never waits for another one,
  and what a transaction has done is invisible until it commits.
\<close>

record 's driver =
  run :: "string \<Rightarrow> 's \<Rightarrow> 's option"
  fault :: "nat \<Rightarrow> bool"

datatype error =
    DriverError
  | NilTxPanic
  | LegacyChecksumMismatch
  | LegacyNotRevertedable
  | ChecksumMismatch string string string
  | NotRevertable
  | FailedToExecuteMigrationScript
  | FailedToInsertIntoChangelog
  | FailedToExecuteRevertScript
  | FailedToDeleteFromChangelog
  | FailedToOpenConfigFile
  | FailedToDecodeConfigFile
  | FailedToOpenFile string
  | FailedToReadFileContent
  | OsReadFileError string
  | JsonUnmarshalError

section \<open>The database handle\<close>

text \<open>Every call is logged, and fails when the driver says so.\<close>

definition call :: "'s driver \<Rightarrow> stmt \<Rightarrow> 's database \<Rightarrow> bool \<times> 's database" where
  "call env st db = (fault env (length (trace db)), db\<lparr>trace := trace db @ [st]\<rparr>)"

text \<open>A transaction works on a copy of the rows and of the schema; only \<open>tx_Commit\<close>
  installs the copy.\<close>

type_synonym 's tx = "changelog_row list \<times> 's"

definition BeginTx :: "'s driver \<Rightarrow> 's database \<Rightarrow> (error + 's tx) \<times> 's database" where
  "BeginTx env db =
     (case call env Begin db of
        (True, db') \<Rightarrow> (Inl DriverError, db')
      | (False, db') \<Rightarrow> (Inr (changelog db', schema db'), db'))"

definition tx_ExecScript ::
  "'s driver \<Rightarrow> string \<Rightarrow> 's tx \<Rightarrow> 's database \<Rightarrow> (error + 's tx) \<times> 's database" where
  "tx_ExecScript env s tx db =
     (case call env (Exec s) db of
        (True, db') \<Rightarrow> (Inl DriverError, db')
      | (False, db') \<Rightarrow>
          (case run env s (snd tx) of
             None \<Rightarrow> (Inl DriverError, db')
           | Some sch \<Rightarrow> (Inr (fst tx, sch), db')))"

text \<open>\<^verbatim>\<open>INSERT INTO changelog (id, checksum, revertscript) VALUES ($1, $2, $3)\<close>:
  \<^verbatim>\<open>id\<close> is the primary key, so a second row with the same id is refused.\<close>

definition tx_ExecInsert ::
  "'s driver \<Rightarrow> Migration \<Rightarrow> 's tx \<Rightarrow> 's database \<Rightarrow> (error + 's tx) \<times> 's database" where
  "tx_ExecInsert env m tx db =
     (case call env (Insert (Id' m) (Checksum m) (RevertScript m)) db of
        (True, db') \<Rightarrow> (Inl DriverError, db')
      | (False, db') \<Rightarrow>
          (if Id' m \<in> set (map row_id (fst tx)) then (Inl DriverError, db')
           else (Inr (\<lparr>row_id = Id' m, row_checksum = Checksum m,
                       row_revertscript = RevertScript m\<rparr> # fst tx, snd tx), db')))"

text \<open>\<^verbatim>\<open>DELETE FROM changelog WHERE id = $1\<close>.\<close>

definition tx_ExecDelete ::
  "'s driver \<Rightarrow> string \<Rightarrow> 's tx \<Rightarrow> 's database \<Rightarrow> (error + 's tx) \<times> 's database" where
  "tx_ExecDelete env k tx db =
     (case call env (Delete k) db of
        (True, db') \<Rightarrow> (Inl DriverError, db')
      | (False, db') \<Rightarrow> (Inr (filter (\<lambda>r. row_id r \<noteq> k) (fst tx), snd tx), db'))"

definition tx_Commit :: "'s driver \<Rightarrow> 's tx \<Rightarrow> 's database \<Rightarrow> error option \<times> 's database" where
  "tx_Commit env tx db =
     (case call env Commit db of
        (True, db') \<Rightarrow> (Some DriverError, db')
      | (False, db') \<Rightarrow> (None, db'\<lparr>changelog := fst tx, schema := snd tx\<rparr>))"

text \<open>The result of \<^verbatim>\<open>tx.Rollback()\<close> is never looked at.\<close>

definition tx_Rollback :: "'s driver \<Rightarrow> 's database \<Rightarrow> 's database" where
  "tx_Rollback env db = snd (call env Rollback db)"

section \<open>MigrationService: apply and revert of one migration\<close>

definition executeSingleMigration ::
  "'s driver \<Rightarrow> 's database \<Rightarrow> Migration \<Rightarrow> error option \<times> 's database" where
  "executeSingleMigration env db migration =
     (case BeginTx env db of
        (Inl e, db1) \<Rightarrow> (Some e, db1)
      | (Inr tx, db1) \<Rightarrow>
          (case tx_ExecScript env (Script migration) tx db1 of
             (Inl e, db2) \<Rightarrow> (Some FailedToExecuteMigrationScript, tx_Rollback env db2)
           | (Inr tx2, db2) \<Rightarrow>
               (case tx_ExecInsert env migration tx2 db2 of
                  (Inl e, db3) \<Rightarrow> (Some FailedToInsertIntoChangelog, tx_Rollback env db3)
                | (Inr tx3, db3) \<Rightarrow> tx_Commit env tx3 db3)))"

definition revertSingleMigration ::
  "'s driver \<Rightarrow> 's database \<Rightarrow> Migration \<Rightarrow> error option \<times> 's database" where
  "revertSingleMigration env db migration =
     (case BeginTx env db of
        (Inl e, db1) \<Rightarrow> (Some e, db1)
      | (Inr tx, db1) \<Rightarrow>
          (case tx_ExecScript env (RevertScript migration) tx db1 of
             (Inl e, db2) \<Rightarrow> (Some FailedToExecuteRevertScript, tx_Rollback env db2)
           | (Inr tx2, db2) \<Rightarrow>
               (case tx_ExecDelete env (Id' migration) tx2 db2 of
                  (Inl e, db3) \<Rightarrow> (Some FailedToDeleteFromChangelog, tx_Rollback env db3)
                | (Inr tx3, db3) \<Rightarrow> tx_Commit env tx3 db3)))"


section \<open>MigrationService: the reconciliation\<close>

text \<open>\<^verbatim>\<open>rows.Scan(&dbMigration.Id, &dbMigration.Checksum, &dbMigration.RevertScript)\<close>:
  the field \<^verbatim>\<open>Script\<close> keeps its zero value.\<close>

definition scan_row :: "changelog_row \<Rightarrow> Migration" where
  "scan_row r = \<lparr>Id' = row_id r, Script = [], RevertScript = row_revertscript r,
                 Checksum = row_checksum r\<rparr>"

definition prepareDatabase :: "'s driver \<Rightarrow> 's database \<Rightarrow> error option \<times> 's database" where
  "prepareDatabase env db =
     (case call env CreateTable db of
        (True, db') \<Rightarrow> (Some DriverError, db')
      | (False, db') \<Rightarrow> (None, db'))"

text \<open>\<^verbatim>\<open>SELECT id, checksum, revertscript FROM changelog ORDER BY installedAt DESC\<close>.\<close>

definition getExistingMigrations ::
  "'s driver \<Rightarrow> 's database \<Rightarrow> (error + Migration list) \<times> 's database" where
  "getExistingMigrations env db =
     (case call env SelectChangelog db of
        (True, db') \<Rightarrow> (Inl DriverError, db')
      | (False, db') \<Rightarrow> (Inr (map scan_row (changelog db')), db'))"

text \<open>The loop of \<^verbatim>\<open>checkExistingChangelogs\<close> over the copy of the existing migrations,
  with the flag \<^verbatim>\<open>notReverted\<close>.\<close>

fun checkExisting_loop ::
  "'s driver \<Rightarrow> (string \<rightharpoonup> Migration) \<Rightarrow> bool \<Rightarrow> Migration list \<Rightarrow> 's database
     \<Rightarrow> error option \<times> 's database" where
  "checkExisting_loop env migrations notReverted [] db = (None, db)"
| "checkExisting_loop env migrations notReverted (dbMigration # rest) db =
     (case migrations (Id' dbMigration) of
        Some migration \<Rightarrow>
          (if Checksum dbMigration \<noteq> Checksum migration
           then (Some (ChecksumMismatch (Id' dbMigration) (Checksum migration)
                        (Checksum dbMigration)), db)
           else checkExisting_loop env migrations True rest db)
      | None \<Rightarrow>
          (if notReverted then (Some NotRevertable, db)
           else (case revertSingleMigration env db dbMigration of
                   (Some e, db') \<Rightarrow> (Some e, db')
                 | (None, db') \<Rightarrow> checkExisting_loop env migrations notReverted rest db')))"

definition checkExistingChangelogs ::
  "'s driver \<Rightarrow> Migration list \<Rightarrow> (string \<rightharpoonup> Migration) \<Rightarrow> 's database
     \<Rightarrow> error option \<times> 's database" where
  "checkExistingChangelogs env existingMigrations migrations db =
     checkExisting_loop env migrations False existingMigrations db"

text \<open>
  \<^verbatim>\<open>for _, migration := range migrations\<close> over a Go map visits every key once, in an
  order the language leaves open. The order is an argument \<open>ks\<close> of the model, a list of
  keys; \<open>range_order m ks\<close> says that \<open>ks\<close> is one of the orders the runtime may choose.
\<close>

definition range_order :: "(string \<rightharpoonup> Migration) \<Rightarrow> string list \<Rightarrow> bool" where
  "range_order m ks \<longleftrightarrow> distinct ks \<and> set ks = dom m"

fun range_values :: "(string \<rightharpoonup> Migration) \<Rightarrow> string list \<Rightarrow> Migration list" where
  "range_values m [] = []"
| "range_values m (k # ks) =
     (case m k of None \<Rightarrow> range_values m ks | Some v \<Rightarrow> v # range_values m ks)"

text \<open>Step 5 of \<^verbatim>\<open>MigrationService.ExecuteMigration\<close>; \<^verbatim>\<open>slices.ContainsFunc\<close> is
  \<open>list_ex\<close>.\<close>

fun executePending ::
  "'s driver \<Rightarrow> Migration list \<Rightarrow> Migration list \<Rightarrow> 's database
     \<Rightarrow> error option \<times> 's database" where
  "executePending env existingMigrations [] db = (None, db)"
| "executePending env existingMigrations (migration # rest) db =
     (if list_ex (\<lambda>e. Id' e = Id' migration) existingMigrations
      then executePending env existingMigrations rest db
      else (case executeSingleMigration env db migration of
              (Some e, db') \<Rightarrow> (Some e, db')
            | (None, db') \<Rightarrow> executePending env existingMigrations rest db'))"

section \<open>MigrationService: loading the desired migrations\<close>

text \<open>What the Go standard library and the file system contribute. \<open>md5_Sum\<close> returns
  the array \<^verbatim>\<open>[16]byte\<close> as a 128-bit word, first byte most significant.\<close>

datatype fsnode = File string | Unreadable

record stdlib =
  md5_Sum :: "string \<Rightarrow> 128 word"
  json_Decode :: "fsnode \<Rightarrow> string list option"
  json_Unmarshal :: "string \<Rightarrow> string list option"
  filepath_Join :: "string \<Rightarrow> string \<Rightarrow> string"
  os_ReadFile :: "string \<Rightarrow> string option"

record MigrationService =
  configFile :: string
  scriptPath :: string
  fs :: "string \<Rightarrow> fsnode option"

text \<open>\<^verbatim>\<open>checksum[:]\<close>: the sixteen bytes of the digest.\<close>

definition digest_bytes :: "128 word \<Rightarrow> 8 word list" where
  "digest_bytes w = map (\<lambda>i. ucast (drop_bit (8 * (15 - i)) w)) [0..<16]"

text \<open>\<^verbatim>\<open>string(b)\<close> for a byte slice.\<close>

definition bytes_string :: "8 word list \<Rightarrow> string" where
  "bytes_string bs = map (\<lambda>b. char_of (unat b)) bs"

text \<open>\<^verbatim>\<open>hex.EncodeToString\<close> of \<^verbatim>\<open>encoding/hex\<close>: for every byte \<^verbatim>\<open>v\<close> the two
  characters \<^verbatim>\<open>hextable[v>>4]\<close> and \<^verbatim>\<open>hextable[v&0x0f]\<close>; the low four bits
  \<^verbatim>\<open>v&0x0f\<close> are \<open>take_bit 4 v\<close>.\<close>

definition hextable :: string where
  "hextable = ''0123456789abcdef''"

fun hex_EncodeToString :: "8 word list \<Rightarrow> string" where
  "hex_EncodeToString [] = []"
| "hex_EncodeToString (v # vs) =
     hextable ! unat (drop_bit 4 v) # hextable ! unat (take_bit 4 v) # hex_EncodeToString vs"

definition readConfigFile :: "stdlib \<Rightarrow> MigrationService \<Rightarrow> error + string list" where
  "readConfigFile lib m =
     (case fs m (configFile m) of
        None \<Rightarrow> Inl FailedToOpenConfigFile
      | Some f \<Rightarrow>
          (case json_Decode lib f of
             None \<Rightarrow> Inl FailedToDecodeConfigFile
           | Some migrationIds \<Rightarrow> Inr migrationIds))"

definition readFileContent :: "(string \<Rightarrow> fsnode option) \<Rightarrow> string \<Rightarrow> error + string" where
  "readFileContent fsys path =
     (case fsys path of
        None \<Rightarrow> Inl (FailedToOpenFile path)
      | Some Unreadable \<Rightarrow> Inl FailedToReadFileContent
      | Some (File fileContent) \<Rightarrow> Inr fileContent)"

definition extractMigration :: "stdlib \<Rightarrow> MigrationService \<Rightarrow> string \<Rightarrow> error + Migration" where
  "extractMigration lib m migrationId =
     (case readFileContent (fs m) (filepath_Join lib (scriptPath m) (migrationId @ ''.sql'')) of
        Inl e \<Rightarrow> Inl e
      | Inr script \<Rightarrow>
          (case readFileContent (fs m)
                  (filepath_Join lib (scriptPath m) (migrationId @ ''.revert.sql'')) of
             Inl e \<Rightarrow> Inl e
           | Inr revertScript \<Rightarrow>
               Inr \<lparr>Id' = migrationId, Script = script, RevertScript = revertScript,
                    Checksum = hex_EncodeToString (digest_bytes (md5_Sum lib script))\<rparr>))"

text \<open>The zero value \<^verbatim>\<open>Migration{}\<close>, which \<^verbatim>\<open>getMigrations\<close> stores under the id
  whose files could not be read.\<close>

definition zero_Migration :: Migration where
  "zero_Migration = \<lparr>Id' = [], Script = [], RevertScript = [], Checksum = []\<rparr>"

fun getMigrations_loop ::
  "stdlib \<Rightarrow> MigrationService \<Rightarrow> string list \<Rightarrow> (string \<rightharpoonup> Migration)
     \<Rightarrow> (string \<rightharpoonup> Migration) \<times> error option" where
  "getMigrations_loop lib m [] migrations = (migrations, None)"
| "getMigrations_loop lib m (v # vs) migrations =
     (case extractMigration lib m v of
        Inl e \<Rightarrow> (migrations(v \<mapsto> zero_Migration), Some e)
      | Inr mig \<Rightarrow> getMigrations_loop lib m vs (migrations(v \<mapsto> mig)))"

definition getMigrations ::
  "stdlib \<Rightarrow> MigrationService \<Rightarrow> (string \<rightharpoonup> Migration) \<times> error option" where
  "getMigrations lib m =
     (case readConfigFile lib m of
        Inl e \<Rightarrow> (Map.empty, Some e)
      | Inr migrationIds \<Rightarrow> getMigrations_loop lib m migrationIds Map.empty)"

text \<open>\<^verbatim>\<open>MigrationService.ExecuteMigration\<close>; \<open>ks\<close> is the order in which step 5 ranges
  over the map.\<close>

definition MigrationService_ExecuteMigration ::
  "stdlib \<Rightarrow> 's driver \<Rightarrow> string list \<Rightarrow> MigrationService \<Rightarrow> 's database
     \<Rightarrow> error option \<times> 's database" where
  "MigrationService_ExecuteMigration lib env ks m db =
     (case prepareDatabase env db of
        (Some e, db1) \<Rightarrow> (Some e, db1)
      | (None, db1) \<Rightarrow>
          (case getMigrations lib m of
             (migrations, Some e) \<Rightarrow> (Some e, db1)
           | (migrations, None) \<Rightarrow>
               (case getExistingMigrations env db1 of
                  (Inl e, db2) \<Rightarrow> (Some e, db2)
                | (Inr existingMigrations, db2) \<Rightarrow>
                    (case checkExistingChangelogs env existingMigrations migrations db2 of
                       (Some e, db3) \<Rightarrow> (Some e, db3)
                     | (None, db3) \<Rightarrow>
                         executePending env existingMigrations
                           (range_values migrations ks) db3))))"

section \<open>The functions of migrate.go\<close>

text \<open>
  \<^verbatim>\<open>executeChangeLog\<close> and \<^verbatim>\<open>revertScript\<close> overwrite the error of \<^verbatim>\<open>BeginTx\<close>
  without looking at it: when \<^verbatim>\<open>BeginTx\<close> fails the transaction is \<^verbatim>\<open>nil\<close> and the
  next line dereferences it. The panic is the value \<open>Some NilTxPanic\<close>, which no
  returned error equals. A statement that fails leaves the transaction open; it is
  never committed.
\<close>

definition executeChangeLog ::
  "'s driver \<Rightarrow> 's database \<Rightarrow> Migration \<Rightarrow> error option \<times> 's database" where
  "executeChangeLog env db migration =
     (case BeginTx env db of
        (Inl e, db1) \<Rightarrow> (Some NilTxPanic, db1)
      | (Inr tx, db1) \<Rightarrow>
          (case tx_ExecInsert env migration tx db1 of
             (Inl e, db2) \<Rightarrow> (Some e, db2)
           | (Inr tx2, db2) \<Rightarrow>
               (case tx_ExecScript env (Script migration) tx2 db2 of
                  (Inl e, db3) \<Rightarrow> (Some e, db3)
                | (Inr tx3, db3) \<Rightarrow> tx_Commit env tx3 db3)))"

definition revertScript ::
  "'s driver \<Rightarrow> 's database \<Rightarrow> Migration \<Rightarrow> error option \<times> 's database" where
  "revertScript env db migration =
     (case BeginTx env db of
        (Inl e, db1) \<Rightarrow> (Some NilTxPanic, db1)
      | (Inr tx, db1) \<Rightarrow>
          (case tx_ExecDelete env (Id' migration) tx db1 of
             (Inl e, db2) \<Rightarrow> (Some e, db2)
           | (Inr tx2, db2) \<Rightarrow>
               (case tx_ExecScript env (RevertScript migration) tx2 db2 of
                  (Inl e, db3) \<Rightarrow> (Some e, db3)
                | (Inr tx3, db3) \<Rightarrow> tx_Commit env tx3 db3)))"

fun convertMigrationToMap_loop ::
  "Migration list \<Rightarrow> (string \<rightharpoonup> Migration) \<Rightarrow> (string \<rightharpoonup> Migration)" where
  "convertMigrationToMap_loop [] m = m"
| "convertMigrationToMap_loop (migration # rest) m =
     convertMigrationToMap_loop rest (m(Id' migration \<mapsto> migration))"

definition convertMigrationToMap :: "Migration list \<Rightarrow> (string \<rightharpoonup> Migration)" where
  "convertMigrationToMap migrations = convertMigrationToMap_loop migrations Map.empty"

text \<open>
  The loop \<^verbatim>\<open>for rows.Next()\<close> of \<^verbatim>\<open>ExecuteMigration\<close>, over the rows the query
  returned: the cursor delivers the snapshot of the query in full, whatever the loop
  deletes meanwhile (the errors of \<^verbatim>\<open>rows.Scan\<close> and of the cursor, which the code
  ignores, are not modelled). The result of \<^verbatim>\<open>revertScript\<close> is dropped (line 41),
  so only its panic ends the loop. The loop returns the error, the map
  \<^verbatim>\<open>fileMigrations\<close> as the deletions have left it, and the database.
\<close>

fun rows_loop ::
  "'s driver \<Rightarrow> (string \<rightharpoonup> Migration) \<Rightarrow> bool \<Rightarrow> Migration list \<Rightarrow> 's database
     \<Rightarrow> error option \<times> (string \<rightharpoonup> Migration) \<times> 's database" where
  "rows_loop env fileMigrations notReverted [] db = (None, fileMigrations, db)"
| "rows_loop env fileMigrations notReverted (dbMigration # rest) db =
     (case fileMigrations (Id' dbMigration) of
        None \<Rightarrow>
          (if notReverted then (Some LegacyNotRevertedable, fileMigrations, db)
           else (case revertScript env db dbMigration of
                   (r, db') \<Rightarrow>
                     (if r = Some NilTxPanic then (Some NilTxPanic, fileMigrations, db')
                      else rows_loop env fileMigrations notReverted rest db')))
      | Some fileMigration \<Rightarrow>
          (if Checksum dbMigration \<noteq> Checksum fileMigration
           then (Some LegacyChecksumMismatch, fileMigrations, db)
           else rows_loop env (fileMigrations(Id' dbMigration := None)) True rest db))"

fun executeAll ::
  "'s driver \<Rightarrow> Migration list \<Rightarrow> 's database \<Rightarrow> error option \<times> 's database" where
  "executeAll env [] db = (None, db)"
| "executeAll env (migration # rest) db =
     (case executeChangeLog env db migration of
        (Some e, db') \<Rightarrow> (Some e, db')
      | (None, db') \<Rightarrow> executeAll env rest db')"

text \<open>\<^verbatim>\<open>ExecuteMigration(ctx, conn, migrations)\<close> of migrate.go; \<open>ks\<close> is the order in
  which the last loop ranges over what is left of \<^verbatim>\<open>fileMigrations\<close>.\<close>

definition ExecuteMigration ::
  "'s driver \<Rightarrow> string list \<Rightarrow> 's database \<Rightarrow> Migration list \<Rightarrow> error option \<times> 's database" where
  "ExecuteMigration env ks db migrations =
     (let fileMigrations = convertMigrationToMap migrations in
      case call env CreateTable db of
        (True, db1) \<Rightarrow> (Some DriverError, db1)
      | (False, db1) \<Rightarrow>
          (case call env SelectChangelog db1 of
             (True, db2) \<Rightarrow> (Some DriverError, db2)
           | (False, db2) \<Rightarrow>
               (case rows_loop env fileMigrations False (map scan_row (changelog db2)) db2 of
                  (Some e, left, db3) \<Rightarrow> (Some e, db3)
                | (None, left, db3) \<Rightarrow> executeAll env (range_values left ks) db3)))"

text \<open>\<^verbatim>\<open>ReadChangeLogFile\<close>: the checksum is \<^verbatim>\<open>string(checksum[:])\<close>, the sixteen bytes
  themselves. The function returns the migrations read so far together with the error.\<close>

fun ReadChangeLogFile_loop ::
  "stdlib \<Rightarrow> string list \<Rightarrow> Migration list \<Rightarrow> Migration list \<times> error option" where
  "ReadChangeLogFile_loop lib [] migrations = (migrations, None)"
| "ReadChangeLogFile_loop lib (ident # rest) migrations =
     (case os_ReadFile lib (ident @ ''.sql'') of
        None \<Rightarrow> (migrations, Some (OsReadFileError (ident @ ''.sql'')))
      | Some script \<Rightarrow>
          (case os_ReadFile lib (ident @ ''.revert.sql'') of
             None \<Rightarrow> (migrations, Some (OsReadFileError (ident @ ''.revert.sql'')))
           | Some revertScript' \<Rightarrow>
               ReadChangeLogFile_loop lib rest
                 (migrations @ [\<lparr>Id' = ident, Script = script, RevertScript = revertScript',
                    Checksum = bytes_string (digest_bytes (md5_Sum lib script))\<rparr>])))"

definition ReadChangeLogFile :: "stdlib \<Rightarrow> string \<Rightarrow> Migration list \<times> error option" where
  "ReadChangeLogFile lib fileName =
     (case os_ReadFile lib fileName of
        None \<Rightarrow> ([], Some (OsReadFileError fileName))
      | Some buffer \<Rightarrow>
          (case json_Unmarshal lib buffer of
             None \<Rightarrow> ([], Some JsonUnmarshalError)
           | Some migrationIds \<Rightarrow> ReadChangeLogFile_loop lib migrationIds []))"

definition generateHash :: "stdlib \<Rightarrow> string \<Rightarrow> string" where
  "generateHash lib s = bytes_string (digest_bytes (md5_Sum lib s))"


section \<open>Vocabulary of the statements\<close>

text \<open>The row that an apply inserts for a migration.\<close>

definition row_of :: "Migration \<Rightarrow> changelog_row" where
  "row_of m = \<lparr>row_id = Id' m, row_checksum = Checksum m, row_revertscript = RevertScript m\<rparr>"

text \<open>The calls of one committed transaction, as each of the four functions makes them.\<close>

definition apply_tx :: "Migration \<Rightarrow> stmt list" where
  "apply_tx m = [Begin, Exec (Script m), Insert (Id' m) (Checksum m) (RevertScript m), Commit]"

definition legacy_apply_tx :: "Migration \<Rightarrow> stmt list" where
  "legacy_apply_tx m =
     [Begin, Insert (Id' m) (Checksum m) (RevertScript m), Exec (Script m), Commit]"

definition revert_tx :: "changelog_row \<Rightarrow> stmt list" where
  "revert_tx r = [Begin, Exec (row_revertscript r), Delete (row_id r), Commit]"

definition legacy_revert_tx :: "changelog_row \<Rightarrow> stmt list" where
  "legacy_revert_tx r = [Begin, Delete (row_id r), Exec (row_revertscript r), Commit]"

text \<open>The schema after a list of scripts, each run on the result of the one before;
  \<open>None\<close> when one of them fails.\<close>

fun run_all :: "'s driver \<Rightarrow> string list \<Rightarrow> 's \<Rightarrow> 's option" where
  "run_all env [] sch = Some sch"
| "run_all env (s # ss) sch =
     (case run env s sch of None \<Rightarrow> None | Some sch' \<Rightarrow> run_all env ss sch')"

text \<open>The calls a run has added to the log, and the ids those calls insert.\<close>

definition new_trace :: "'s database \<Rightarrow> 's database \<Rightarrow> stmt list" where
  "new_trace db db' = drop (length (trace db)) (trace db')"

fun inserted_ids :: "stmt list \<Rightarrow> string list" where
  "inserted_ids [] = []"
| "inserted_ids (Insert k c r # t) = k # inserted_ids t"
| "inserted_ids (st # t) = inserted_ids t"

fun executed_scripts :: "stmt list \<Rightarrow> string list" where
  "executed_scripts [] = []"
| "executed_scripts (Exec s # t) = s # executed_scripts t"
| "executed_scripts (st # t) = executed_scripts t"

text \<open>An entry of the changelog is kept when its id is a key of the desired set.\<close>

definition undesired :: "(string \<rightharpoonup> Migration) \<Rightarrow> changelog_row \<Rightarrow> bool" where
  "undesired desired r \<longleftrightarrow> desired (row_id r) = None"

definition kept_unchanged :: "(string \<rightharpoonup> Migration) \<Rightarrow> changelog_row \<Rightarrow> bool" where
  "kept_unchanged desired r \<longleftrightarrow>
     (case desired (row_id r) of None \<Rightarrow> False | Some m \<Rightarrow> Checksum m = row_checksum r)"

definition kept_drifted :: "(string \<rightharpoonup> Migration) \<Rightarrow> changelog_row \<Rightarrow> bool" where
  "kept_drifted desired r \<longleftrightarrow>
     (case desired (row_id r) of None \<Rightarrow> False | Some m \<Rightarrow> Checksum m \<noteq> row_checksum r)"

text \<open>The pending migrations of a run: the desired migrations, in the order \<open>ks\<close> of the
  map, whose ids are not ids of the rows read from the changelog.\<close>

definition pending ::
  "(string \<rightharpoonup> Migration) \<Rightarrow> string list \<Rightarrow> changelog_row list \<Rightarrow> Migration list" where
  "pending desired ks rows = [m \<leftarrow> range_values desired ks. Id' m \<notin> set (map row_id rows)]"

text \<open>A list of ids without its repetitions: every id stays at its first position.\<close>

fun drop_repeats :: "string list \<Rightarrow> string list" where
  "drop_repeats [] = []"
| "drop_repeats (v # vs) = v # drop_repeats (filter (\<lambda>x. x \<noteq> v) vs)"


section \<open>Concrete inputs\<close>

text \<open>A driver without faults whose schema is the list of the scripts run so far; the
  script \<^verbatim>\<open>FAIL\<close> fails.\<close>

definition ex_env :: "string list driver" where
  "ex_env = \<lparr>run = (\<lambda>s sch. if s = ''FAIL'' then None else Some (sch @ [s])),
             fault = (\<lambda>n. False)\<rparr>"

text \<open>A file system in which every file holds its own path, a configuration that lists
  the ids \<open>ids\<close>, and a digest that is the length of the text.\<close>

definition ex_lib :: "string list \<Rightarrow> stdlib" where
  "ex_lib ids = \<lparr>md5_Sum = (\<lambda>s. of_nat (length s)), json_Decode = (\<lambda>f. Some ids),
                 json_Unmarshal = (\<lambda>b. Some ids),
                 filepath_Join = (\<lambda>dir name. dir @ ''/'' @ name),
                 os_ReadFile = (\<lambda>p. Some p)\<rparr>"

definition ex_svc :: MigrationService where
  "ex_svc = \<lparr>configFile = ''config.json'', scriptPath = ''scripts'',
             fs = (\<lambda>p. Some (File p))\<rparr>"

text \<open>The migration that \<open>extractMigration\<close> loads there for an id.\<close>

definition ex_migration :: "string \<Rightarrow> Migration" where
  "ex_migration i =
     \<lparr>Id' = i, Script = ''scripts/'' @ i @ ''.sql'',
      RevertScript = ''scripts/'' @ i @ ''.revert.sql'',
      Checksum = hex_EncodeToString
                   (digest_bytes (of_nat (length (''scripts/'' @ i @ ''.sql''))))\<rparr>"

definition ex_db :: "changelog_row list \<Rightarrow> string list database" where
  "ex_db rows = \<lparr>changelog = rows, schema = [], trace = []\<rparr>"

text \<open>Rows of the changelog: one whose revert script works, one whose revert script
  fails, one recorded with a checksum that is no longer the checksum of its file.\<close>

definition ex_row :: "string \<Rightarrow> changelog_row" where
  "ex_row i = \<lparr>row_id = i, row_checksum = Checksum (ex_migration i),
               row_revertscript = ''scripts/'' @ i @ ''.revert.sql''\<rparr>"

definition ex_row_failing :: "string \<Rightarrow> changelog_row" where
  "ex_row_failing i = \<lparr>row_id = i, row_checksum = Checksum (ex_migration i),
                       row_revertscript = ''FAIL''\<rparr>"

definition ex_row_drifted :: "string \<Rightarrow> changelog_row" where
  "ex_row_drifted i = \<lparr>row_id = i, row_checksum = ''old'',
                       row_revertscript = ''scripts/'' @ i @ ''.revert.sql''\<rparr>"

text \<open>A library whose digest of the empty text is the MD5 digest of the empty text,
  \<^verbatim>\<open>d41d8cd98f00b204e9800998ecf8427e\<close>, over a file system whose files are all
  empty and whose configuration lists the id \<^verbatim>\<open>T\<close>.\<close>

definition ex_md5_lib :: stdlib where
  "ex_md5_lib = \<lparr>md5_Sum = (\<lambda>s. if s = [] then 0xd41d8cd98f00b204e9800998ecf8427e else 0),
                 json_Decode = (\<lambda>f. Some [''T'']), json_Unmarshal = (\<lambda>b. Some [''T'']),
                 filepath_Join = (\<lambda>dir name. dir @ ''/'' @ name),
                 os_ReadFile = (\<lambda>p. Some [])\<rparr>"

definition ex_md5_svc :: MigrationService where
  "ex_md5_svc = \<lparr>configFile = ''config.json'', scriptPath = ''scripts'',
                 fs = (\<lambda>p. Some (File []))\<rparr>"

section \<open>The checksum of a script\<close>

text \<open>The two encodings of a digest.\<close>

lemma length_digest_bytes: "length (digest_bytes w) = 16"
  by (simp add: digest_bytes_def)

lemma length_hex: "length (hex_EncodeToString bs) = 2 * length bs"
  by (induction bs) auto

lemma length_hex_digest [simp]: "length (hex_EncodeToString (digest_bytes w)) = 32"
  by (simp add: length_hex length_digest_bytes)

lemma length_raw_digest [simp]: "length (bytes_string (digest_bytes w)) = 16"
  by (simp add: bytes_string_def length_digest_bytes)

lemma nibble_in_hextable: "n < 16 \<Longrightarrow> hextable ! n \<in> set ''0123456789abcdef''"
proof -
  assume "n < 16"
  then have "n < length hextable" by (simp add: hextable_def)
  then have "hextable ! n \<in> set hextable" by (rule nth_mem)
  then show ?thesis by (simp add: hextable_def)
qed

lemma hi_nibble: "unat (drop_bit 4 (v :: 8 word)) < 16"
proof -
  have "unat v < 2 ^ 8" using unsigned_less[of v] by simp
  then have c: "unat v div 2 ^ 4 < 16" by simp
  have a: "unat (drop_bit 4 v) = drop_bit 4 (unat v)" by (simp add: unat_drop_bit_eq)
  have b: "drop_bit 4 (unat v) = unat v div 2 ^ 4" by (rule drop_bit_eq_div)
  show ?thesis unfolding a b by (rule c)
qed

lemma lo_nibble: "unat (take_bit 4 (v :: 8 word)) < 16"
proof -
  have "take_bit 4 (unat v) < 2 ^ 4" by (rule take_bit_nat_less_exp)
  then show ?thesis by (simp add: unsigned_take_bit_eq)
qed

lemma hex_lower_case: "set (hex_EncodeToString bs) \<subseteq> set ''0123456789abcdef''"
proof (induction bs)
  case Nil
  then show ?case by simp
next
  case (Cons v bs)
  show ?case
    using Cons.IH nibble_in_hextable[OF hi_nibble[of v]] nibble_in_hextable[OF lo_nibble[of v]]
    by simp
qed

lemma extractMigration_Id:
  "extractMigration lib svc i = Inr mig \<Longrightarrow>
     Id' mig = i \<and> Checksum mig = hex_EncodeToString (digest_bytes (md5_Sum lib (Script mig)))"
  by (auto simp: extractMigration_def split: sum.splits)

lemma service_checksum_is_lower_case_hex:
  "extractMigration lib svc i = Inr mig \<Longrightarrow>
     Checksum mig = hex_EncodeToString (digest_bytes (md5_Sum lib (Script mig))) \<and>
     length (Checksum mig) = 32 \<and> set (Checksum mig) \<subseteq> set ''0123456789abcdef''"
  using extractMigration_Id[of lib svc i mig] hex_lower_case[of "digest_bytes (md5_Sum lib (Script mig))"]
  by simp

lemma ReadChangeLogFile_loop_checksum:
  "ReadChangeLogFile_loop lib ids acc = (ms, e) \<Longrightarrow>
   \<forall>m\<in>set acc. Checksum m = bytes_string (digest_bytes (md5_Sum lib (Script m))) \<Longrightarrow>
   \<forall>m\<in>set ms. Checksum m = bytes_string (digest_bytes (md5_Sum lib (Script m)))"
  by (induction ids arbitrary: acc) (auto split: option.splits)

lemma legacy_checksum_is_sixteen_bytes:
  "m \<in> set (fst (ReadChangeLogFile lib fileName)) \<Longrightarrow>
     Checksum m = generateHash lib (Script m) \<and> length (Checksum m) = 16 \<and>
     Checksum m \<noteq> hex_EncodeToString (digest_bytes (md5_Sum lib (Script m)))"
proof -
  assume a: "m \<in> set (fst (ReadChangeLogFile lib fileName))"
  obtain ms e where r: "ReadChangeLogFile lib fileName = (ms, e)"
    by (cases "ReadChangeLogFile lib fileName")
  have "\<forall>m\<in>set ms. Checksum m = bytes_string (digest_bytes (md5_Sum lib (Script m)))"
  proof (cases "os_ReadFile lib fileName")
    case None
    then show ?thesis using r by (simp add: ReadChangeLogFile_def)
  next
    case (Some buffer)
    show ?thesis
    proof (cases "json_Unmarshal lib buffer")
      case None
      then show ?thesis using r Some by (simp add: ReadChangeLogFile_def)
    next
      case (Some ids)
      then have "ReadChangeLogFile_loop lib ids [] = (ms, e)"
        using r \<open>os_ReadFile lib fileName = Some buffer\<close> by (simp add: ReadChangeLogFile_def)
      from ReadChangeLogFile_loop_checksum[OF this] show ?thesis by simp
    qed
  qed
  then have c: "Checksum m = bytes_string (digest_bytes (md5_Sum lib (Script m)))"
    using a r by simp
  have "length (Checksum m) = 16" unfolding c by simp
  moreover have "length (hex_EncodeToString (digest_bytes (md5_Sum lib (Script m)))) = 32" by simp
  ultimately have "Checksum m \<noteq> hex_EncodeToString (digest_bytes (md5_Sum lib (Script m)))"
    by auto
  then show ?thesis using c \<open>length (Checksum m) = 16\<close> by (simp add: generateHash_def)
qed


section \<open>One transaction\<close>

lemma no_fault_call:
  "\<forall>n. \<not> fault env n \<Longrightarrow> call env st db = (False, db\<lparr>trace := trace db @ [st]\<rparr>)"
  by (simp add: call_def)

lemma executeSingleMigration_result:
  "executeSingleMigration env db m = (r, db') \<Longrightarrow>
   (case r of
      None \<Rightarrow> run env (Script m) (schema db) = Some (schema db') \<and>
              changelog db' = row_of m # changelog db \<and>
              Id' m \<notin> set (map row_id (changelog db)) \<and>
              trace db' = trace db @ apply_tx m
    | Some e \<Rightarrow> schema db' = schema db \<and> changelog db' = changelog db)"
  by (auto simp: executeSingleMigration_def BeginTx_def tx_ExecScript_def tx_ExecInsert_def
       tx_Commit_def tx_Rollback_def call_def row_of_def apply_tx_def
       split: prod.splits bool.splits sum.splits option.splits if_splits)

lemma executeChangeLog_result:
  "executeChangeLog env db m = (r, db') \<Longrightarrow>
   (case r of
      None \<Rightarrow> run env (Script m) (schema db) = Some (schema db') \<and>
              changelog db' = row_of m # changelog db \<and>
              Id' m \<notin> set (map row_id (changelog db)) \<and>
              trace db' = trace db @ legacy_apply_tx m
    | Some e \<Rightarrow> schema db' = schema db \<and> changelog db' = changelog db)"
  by (auto simp: executeChangeLog_def BeginTx_def tx_ExecScript_def tx_ExecInsert_def
       tx_Commit_def tx_Rollback_def call_def row_of_def legacy_apply_tx_def
       split: prod.splits bool.splits sum.splits option.splits if_splits)

lemma revertSingleMigration_result:
  "revertSingleMigration env db m = (r, db') \<Longrightarrow>
   (case r of
      None \<Rightarrow> run env (RevertScript m) (schema db) = Some (schema db') \<and>
              changelog db' = filter (\<lambda>r. row_id r \<noteq> Id' m) (changelog db) \<and>
              trace db' = trace db @ [Begin, Exec (RevertScript m), Delete (Id' m), Commit]
    | Some e \<Rightarrow> schema db' = schema db \<and> changelog db' = changelog db)"
  by (auto simp: revertSingleMigration_def BeginTx_def tx_ExecScript_def tx_ExecDelete_def
       tx_Commit_def tx_Rollback_def call_def 
       split: prod.splits bool.splits sum.splits option.splits if_splits)

lemma revertScript_result:
  "revertScript env db m = (r, db') \<Longrightarrow>
   (case r of
      None \<Rightarrow> run env (RevertScript m) (schema db) = Some (schema db') \<and>
              changelog db' = filter (\<lambda>r. row_id r \<noteq> Id' m) (changelog db) \<and>
              trace db' = trace db @ [Begin, Delete (Id' m), Exec (RevertScript m), Commit]
    | Some e \<Rightarrow> schema db' = schema db \<and> changelog db' = changelog db)"
  by (auto simp: revertScript_def BeginTx_def tx_ExecScript_def tx_ExecDelete_def
       tx_Commit_def tx_Rollback_def call_def 
       split: prod.splits bool.splits sum.splits option.splits if_splits)

text \<open>Without faults of the driver, each of the four functions is decided by the script
  and by the primary key.\<close>

lemma nf_executeSingleMigration:
  "\<forall>n. \<not> fault env n \<Longrightarrow> executeSingleMigration env db m =
    (case run env (Script m) (schema db) of
       None \<Rightarrow> (Some FailedToExecuteMigrationScript, db\<lparr>trace := trace db @ [Begin, Exec (Script m), Rollback]\<rparr>)
     | Some sch \<Rightarrow>
        if Id' m \<in> set (map row_id (changelog db))
        then (Some FailedToInsertIntoChangelog, db\<lparr>trace := trace db @ [Begin, Exec (Script m), Insert (Id' m) (Checksum m) (RevertScript m), Rollback]\<rparr>)
        else (None, db\<lparr>changelog := row_of m # changelog db, schema := sch, trace := trace db @ apply_tx m\<rparr>))"
  by (auto simp: executeSingleMigration_def BeginTx_def tx_ExecScript_def tx_ExecInsert_def
       tx_Commit_def tx_Rollback_def call_def row_of_def apply_tx_def
       split: prod.splits bool.splits sum.splits option.splits if_splits)

lemma nf_revertSingleMigration:
  "\<forall>n. \<not> fault env n \<Longrightarrow> revertSingleMigration env db m =
    (case run env (RevertScript m) (schema db) of
       None \<Rightarrow> (Some FailedToExecuteRevertScript, db\<lparr>trace := trace db @ [Begin, Exec (RevertScript m), Rollback]\<rparr>)
     | Some sch \<Rightarrow>
        (None, db\<lparr>changelog := filter (\<lambda>r. row_id r \<noteq> Id' m) (changelog db), schema := sch, 
            trace := trace db @ [Begin, Exec (RevertScript m), Delete (Id' m), Commit]\<rparr>))"
  by (auto simp: revertSingleMigration_def BeginTx_def tx_ExecScript_def tx_ExecDelete_def
       tx_Commit_def tx_Rollback_def call_def 
       split: prod.splits bool.splits sum.splits option.splits if_splits)

lemma nf_executeChangeLog:
  "\<forall>n. \<not> fault env n \<Longrightarrow> executeChangeLog env db m =
    (if Id' m \<in> set (map row_id (changelog db))
     then (Some DriverError, db\<lparr>trace := trace db @ [Begin, Insert (Id' m) (Checksum m) (RevertScript m)]\<rparr>)
     else (case run env (Script m) (schema db) of
       None \<Rightarrow> (Some DriverError, db\<lparr>trace := trace db @ [Begin, Insert (Id' m) (Checksum m) (RevertScript m), Exec (Script m)]\<rparr>)
     | Some sch \<Rightarrow> (None, db\<lparr>changelog := row_of m # changelog db, schema := sch, trace := trace db @ legacy_apply_tx m\<rparr>)))"
  by (auto simp: executeChangeLog_def BeginTx_def tx_ExecScript_def tx_ExecInsert_def
       tx_Commit_def tx_Rollback_def call_def row_of_def legacy_apply_tx_def
       split: prod.splits bool.splits sum.splits option.splits if_splits)

lemma nf_revertScript:
  "\<forall>n. \<not> fault env n \<Longrightarrow> revertScript env db m =
    (case run env (RevertScript m) (schema db) of
       None \<Rightarrow> (Some DriverError, db\<lparr>trace := trace db @ [Begin, Delete (Id' m), Exec (RevertScript m)]\<rparr>)
     | Some sch \<Rightarrow>
        (None, db\<lparr>changelog := filter (\<lambda>r. row_id r \<noteq> Id' m) (changelog db), schema := sch, 
            trace := trace db @ [Begin, Delete (Id' m), Exec (RevertScript m), Commit]\<rparr>))"
  by (auto simp: revertScript_def BeginTx_def tx_ExecScript_def tx_ExecDelete_def
       tx_Commit_def tx_Rollback_def call_def 
       split: prod.splits bool.splits sum.splits option.splits if_splits)

section \<open>The walk over the changelog\<close>

lemma scan_row_simps [simp]:
  "Id' (scan_row r) = row_id r" "Checksum (scan_row r) = row_checksum r"
  "RevertScript (scan_row r) = row_revertscript r" "Script (scan_row r) = []"
  by (simp_all add: scan_row_def)

lemma loop_kept:
  "list_all (kept_unchanged desired) ks \<Longrightarrow>
   checkExisting_loop env desired b (map scan_row ks @ xs) db =
   checkExisting_loop env desired (b \<or> ks \<noteq> []) xs db"
  by (induction ks arbitrary: b) (auto simp: kept_unchanged_def split: option.splits)

lemma loop_reverts:
  "\<forall>n. \<not> fault env n \<Longrightarrow> list_all (undesired desired) us \<Longrightarrow>
   run_all env (map row_revertscript us) (schema db) = Some sch \<Longrightarrow>
   checkExisting_loop env desired False (map scan_row us @ xs) db =
   checkExisting_loop env desired False xs
     (db\<lparr>changelog := filter (\<lambda>r. row_id r \<notin> set (map row_id us)) (changelog db),
         schema := sch, trace := trace db @ concat (map revert_tx us)\<rparr>)"
proof (induction us arbitrary: db)
  case Nil
  then show ?case by (cases db) simp
next
  case (Cons u us)
  from Cons.prems(3) obtain s1 where s1: "run env (row_revertscript u) (schema db) = Some s1"
    and rest: "run_all env (map row_revertscript us) s1 = Some sch"
    by (auto split: option.splits)
  let ?db1 = "db\<lparr>changelog := filter (\<lambda>r. row_id r \<noteq> row_id u) (changelog db), schema := s1,
            trace := trace db @ revert_tx u\<rparr>"
  have step: "revertSingleMigration env db (scan_row u) = (None, ?db1)"
    using Cons.prems(1) s1 by (simp add: nf_revertSingleMigration revert_tx_def)
  have und: "desired (row_id u) = None" "list_all (undesired desired) us"
    using Cons.prems(2) by (simp add: undesired_def, simp)
  have "checkExisting_loop env desired False (map scan_row (u # us) @ xs) db =
        checkExisting_loop env desired False (map scan_row us @ xs) ?db1"
    using step und by simp
  also have "\<dots> = checkExisting_loop env desired False xs
     (?db1\<lparr>changelog := filter (\<lambda>r. row_id r \<notin> set (map row_id us)) (changelog ?db1),
         schema := sch, trace := trace ?db1 @ concat (map revert_tx us)\<rparr>)"
    using Cons.IH[OF Cons.prems(1) und(2), of ?db1] rest by simp
  also have "(?db1\<lparr>changelog := filter (\<lambda>r. row_id r \<notin> set (map row_id us)) (changelog ?db1),
         schema := sch, trace := trace ?db1 @ concat (map revert_tx us)\<rparr>) =
      (db\<lparr>changelog := filter (\<lambda>r. row_id r \<notin> set (map row_id (u # us))) (changelog db),
         schema := sch, trace := trace db @ concat (map revert_tx (u # us))\<rparr>)"
    by (auto intro!: arg_cong2[where f="\<lambda>a b. db\<lparr>changelog := a, schema := sch, trace := b\<rparr>"] filter_cong)
  finally show ?case .
qed

lemma rows_loop_kept:
  "list_all (kept_unchanged fm) ks \<Longrightarrow> distinct (map row_id ks) \<Longrightarrow>
   rows_loop env fm b (map scan_row ks @ xs) db =
   rows_loop env (fm |` (- set (map row_id ks))) (b \<or> ks \<noteq> []) xs db"
proof (induction ks arbitrary: fm b)
  case Nil
  then show ?case by simp
next
  case (Cons k ks)
  from Cons.prems obtain m where m: "fm (row_id k) = Some m" "Checksum m = row_checksum k"
    by (auto simp: kept_unchanged_def split: option.splits)
  have "row_id x \<noteq> row_id k" if "x \<in> set ks" for x
    using that Cons.prems(2) by (force simp: image_iff)
  then have ks': "list_all (kept_unchanged (fm(row_id k := None))) ks"
    using Cons.prems(1) by (simp add: kept_unchanged_def list_all_iff)
  have eq: "(fm(row_id k := None)) |` (- set (map row_id ks)) = fm |` (- set (map row_id (k # ks)))"
    by (auto simp: restrict_map_def fun_eq_iff)
  have dist: "distinct (map row_id ks)" using Cons.prems(2) by simp
  have "rows_loop env fm b (map scan_row (k # ks) @ xs) db =
        rows_loop env (fm(row_id k := None)) True (map scan_row ks @ xs) db"
    using m by simp
  also have "\<dots> = rows_loop env ((fm(row_id k := None)) |` (- set (map row_id ks))) True xs db"
    using Cons.IH[OF ks' dist, of True] by (simp only: simp_thms)
  also have "\<dots> = rows_loop env (fm |` (- set (map row_id (k # ks)))) (b \<or> k # ks \<noteq> []) xs db"
    unfolding eq by simp
  finally show ?case .
qed

lemma rows_loop_reverts:
  "\<forall>n. \<not> fault env n \<Longrightarrow> list_all (undesired fm) us \<Longrightarrow>
   run_all env (map row_revertscript us) (schema db) = Some sch \<Longrightarrow>
   rows_loop env fm False (map scan_row us @ xs) db =
   rows_loop env fm False xs
     (db\<lparr>changelog := filter (\<lambda>r. row_id r \<notin> set (map row_id us)) (changelog db),
         schema := sch, trace := trace db @ concat (map legacy_revert_tx us)\<rparr>)"
proof (induction us arbitrary: db)
  case Nil
  then show ?case by (cases db) simp
next
  case (Cons u us)
  from Cons.prems(3) obtain s1 where s1: "run env (row_revertscript u) (schema db) = Some s1"
    and rest: "run_all env (map row_revertscript us) s1 = Some sch"
    by (auto split: option.splits)
  let ?db1 = "db\<lparr>changelog := filter (\<lambda>r. row_id r \<noteq> row_id u) (changelog db), schema := s1,
            trace := trace db @ legacy_revert_tx u\<rparr>"
  have step: "revertScript env db (scan_row u) = (None, ?db1)"
    using Cons.prems(1) s1 by (simp add: nf_revertScript legacy_revert_tx_def)
  have und: "fm (row_id u) = None" "list_all (undesired fm) us"
    using Cons.prems(2) by (simp add: undesired_def, simp)
  have "rows_loop env fm False (map scan_row (u # us) @ xs) db =
        rows_loop env fm False (map scan_row us @ xs) ?db1"
    using step und by simp
  also have "\<dots> = rows_loop env fm False xs
     (?db1\<lparr>changelog := filter (\<lambda>r. row_id r \<notin> set (map row_id us)) (changelog ?db1),
         schema := sch, trace := trace ?db1 @ concat (map legacy_revert_tx us)\<rparr>)"
    using Cons.IH[OF Cons.prems(1) und(2), of ?db1] rest by simp
  also have "(?db1\<lparr>changelog := filter (\<lambda>r. row_id r \<notin> set (map row_id us)) (changelog ?db1),
         schema := sch, trace := trace ?db1 @ concat (map legacy_revert_tx us)\<rparr>) =
      (db\<lparr>changelog := filter (\<lambda>r. row_id r \<notin> set (map row_id (u # us))) (changelog db),
         schema := sch, trace := trace db @ concat (map legacy_revert_tx (u # us))\<rparr>)"
    by (auto intro!: arg_cong2[where f="\<lambda>a b. db\<lparr>changelog := a, schema := sch, trace := b\<rparr>"] filter_cong)
  finally show ?case .
qed

lemma filter_prefix_distinct:
  "distinct (map row_id (us @ rest)) \<Longrightarrow>
   filter (\<lambda>r. row_id r \<notin> set (map row_id us)) (us @ rest) = rest"
  by (auto simp: filter_empty_conv filter_id_conv)

lemma nf_service:
  assumes "\<forall>n. \<not> fault env n" "getMigrations lib svc = (desired, None)"
  shows "MigrationService_ExecuteMigration lib env ks svc db =
    (case checkExisting_loop env desired False (map scan_row (changelog db))
            (db\<lparr>trace := trace db @ [CreateTable, SelectChangelog]\<rparr>) of
       (Some e, db3) \<Rightarrow> (Some e, db3)
     | (None, db3) \<Rightarrow>
         executePending env (map scan_row (changelog db)) (range_values desired ks) db3)"
  using assms
  by (simp add: MigrationService_ExecuteMigration_def prepareDatabase_def
      getExistingMigrations_def checkExistingChangelogs_def call_def
      split: prod.splits option.splits)

lemma nf_legacy:
  assumes "\<forall>n. \<not> fault env n"
  shows "ExecuteMigration env ks db ms =
    (case rows_loop env (convertMigrationToMap ms) False (map scan_row (changelog db))
            (db\<lparr>trace := trace db @ [CreateTable, SelectChangelog]\<rparr>) of
       (Some e, left, db3) \<Rightarrow> (Some e, db3)
     | (None, left, db3) \<Rightarrow> executeAll env (range_values left ks) db3)"
  using assms
  by (simp add: ExecuteMigration_def call_def)


lemma range_values_empty [simp]: "range_values Map.empty ks = []"
  by (induction ks) auto

lemma convertMigrationToMap_Nil [simp]: "convertMigrationToMap [] = Map.empty"
  by (simp add: convertMigrationToMap_def)


lemma new_trace_append [simp]: "trace db' = trace db @ t \<Longrightarrow> new_trace db db' = t"
  by (simp add: new_trace_def)


text \<open>In the service a revert that fails ends the walk and the run with its error.\<close>

lemma checkExisting_loop_revert_fails:
  "desired (Id' e) = None \<Longrightarrow> revertSingleMigration env db e = (Some err, db') \<Longrightarrow>
   checkExisting_loop env desired False (e # rest) db = (Some err, db')"
  by simp

lemma service_revert_failure_propagates:
  assumes "prepareDatabase env db = (None, db1)"
    and "getMigrations lib svc = (desired, None)"
    and "getExistingMigrations env db1 = (Inr (e # rest), db2)"
    and "desired (Id' e) = None"
    and "revertSingleMigration env db2 e = (Some err, db3)"
  shows "MigrationService_ExecuteMigration lib env order svc db = (Some err, db3)"
  using assms
  by (simp add: MigrationService_ExecuteMigration_def checkExistingChangelogs_def)


text \<open>The map of the desired migrations.\<close>

lemma convertMigrationToMap_loop_last:
  "convertMigrationToMap_loop ms acc k =
     (case filter (\<lambda>m. Id' m = k) ms of [] \<Rightarrow> acc k | y # ys \<Rightarrow> Some (last (y # ys)))"
  by (induction ms arbitrary: acc) (auto split: list.splits)

lemma range_values_ids:
  "\<forall>k v. m k = Some v \<longrightarrow> Id' v = k \<Longrightarrow> map Id' (range_values m ks) = filter (\<lambda>k. k \<in> dom m) ks"
  by (induction ks) (auto split: option.splits)

lemma convertMigrationToMap_key:
  "convertMigrationToMap ms k = Some v \<Longrightarrow> Id' v = k"
proof -
  assume a: "convertMigrationToMap ms k = Some v"
  then obtain y ys where f: "filter (\<lambda>m. Id' m = k) ms = y # ys" and v: "v = last (y # ys)"
    by (auto simp: convertMigrationToMap_def convertMigrationToMap_loop_last split: list.splits)
  have "last (y # ys) \<in> set (filter (\<lambda>m. Id' m = k) ms)"
    unfolding f by (rule last_in_set) simp
  then show ?thesis using v by simp
qed


lemma getMigrations_loop_key:
  "getMigrations_loop lib svc ids acc = (desired, None) \<Longrightarrow>
   (\<And>k v. acc k = Some v \<Longrightarrow> Id' v = k) \<Longrightarrow> desired k = Some v \<Longrightarrow> Id' v = k"
proof (induction ids arbitrary: acc)
  case Nil
  then show ?case by simp
next
  case (Cons i ids)
  from Cons.prems(1) obtain mig where e: "extractMigration lib svc i = Inr mig"
    and l: "getMigrations_loop lib svc ids (acc(i \<mapsto> mig)) = (desired, None)"
    by (auto split: sum.splits)
  have "Id' v' = k'" if "(acc(i \<mapsto> mig)) k' = Some v'" for k' v'
    using that extractMigration_Id[OF e] Cons.prems(2) by (auto split: if_splits)
  then show ?case using Cons.IH[OF l _ Cons.prems(3)] by blast
qed

lemma getMigrations_key:
  "getMigrations lib svc = (desired, None) \<Longrightarrow> desired k = Some v \<Longrightarrow> Id' v = k"
  using getMigrations_loop_key[of lib svc _ Map.empty desired k v]
  by (auto simp: getMigrations_def split: sum.splits)



section \<open>The concrete inputs evaluated\<close>

lemma ex_env_nf: "\<forall>n. \<not> fault ex_env n"
  by (simp add: ex_env_def)

lemma ex_env_run: "run ex_env s sch = (if s = ''FAIL'' then None else Some (sch @ [s]))"
  by (simp add: ex_env_def)

lemma ex_getMigrations_T:
  "getMigrations (ex_lib [''T'']) ex_svc = ([''T'' \<mapsto> ex_migration ''T''], None)"
  by (simp add: getMigrations_def readConfigFile_def ex_lib_def ex_svc_def extractMigration_def
      readFileContent_def ex_migration_def)

lemma ex_convert_T:
  "convertMigrationToMap [ex_migration ''T''] = [''T'' \<mapsto> ex_migration ''T'']"
  by (simp add: convertMigrationToMap_def ex_migration_def)

lemma ex_checksum_length: "length (Checksum (ex_migration i)) = 32"
  by (simp add: ex_migration_def length_hex length_digest_bytes)

lemma ex_checksum_not_old: "Checksum (ex_migration i) \<noteq> ''old''"
  using ex_checksum_length[of i] by auto


lemmas ex_rows = ex_row_def ex_row_failing_def ex_row_drifted_def ex_db_def

lemma ex_migration_sel [simp]:
  "Id' (ex_migration i) = i"
  "Script (ex_migration i) = ''scripts/'' @ i @ ''.sql''"
  "RevertScript (ex_migration i) = ''scripts/'' @ i @ ''.revert.sql''"
  by (simp_all add: ex_migration_def)

lemma ex_old_not_checksum: "''old'' \<noteq> Checksum (ex_migration i)"
  using ex_checksum_not_old[of i] by metis

lemma ex_drift_service:
  "MigrationService_ExecuteMigration (ex_lib [''T'']) ex_env [''T''] ex_svc
     (ex_db [ex_row ''U'', ex_row_drifted ''T'']) =
     (Some (ChecksumMismatch ''T'' (Checksum (ex_migration ''T'')) ''old''),
      \<lparr>changelog = [ex_row_drifted ''T''], schema = [''scripts/U.revert.sql''],
       trace = [CreateTable, SelectChangelog, Begin, Exec ''scripts/U.revert.sql'',
                Delete ''U'', Commit]\<rparr>)"
  by (simp add: nf_service[OF ex_env_nf ex_getMigrations_T] ex_rows
        nf_revertSingleMigration[OF ex_env_nf] ex_env_run ex_checksum_not_old ex_old_not_checksum)

lemma ex_drift_legacy:
  "ExecuteMigration ex_env [''T''] (ex_db [ex_row ''U'', ex_row_drifted ''T''])
       [ex_migration ''T''] =
     (Some LegacyChecksumMismatch,
      \<lparr>changelog = [ex_row_drifted ''T''], schema = [''scripts/U.revert.sql''],
       trace = [CreateTable, SelectChangelog, Begin, Delete ''U'',
                Exec ''scripts/U.revert.sql'', Commit]\<rparr>)"
  by (simp add: nf_legacy[OF ex_env_nf] ex_convert_T ex_rows
        nf_revertScript[OF ex_env_nf] ex_env_run ex_checksum_not_old ex_old_not_checksum)


lemma ex_checksum_row [simp]: "row_checksum (ex_row i) = Checksum (ex_migration i)"
  "row_id (ex_row i) = i" "row_revertscript (ex_row i) = ''scripts/'' @ i @ ''.revert.sql''"
  by (simp_all add: ex_row_def)


lemma ex_order_service:
  "MigrationService_ExecuteMigration (ex_lib [''T'']) ex_env [''T''] ex_svc
     (ex_db [ex_row ''U'', ex_row ''T'', ex_row ''V'']) =
     (Some NotRevertable,
      \<lparr>changelog = [ex_row ''T'', ex_row ''V''], schema = [''scripts/U.revert.sql''],
       trace = [CreateTable, SelectChangelog, Begin, Exec ''scripts/U.revert.sql'',
                Delete ''U'', Commit]\<rparr>)"
  by (simp add: nf_service[OF ex_env_nf ex_getMigrations_T] ex_db_def
        nf_revertSingleMigration[OF ex_env_nf] ex_env_run)

lemma ex_order_legacy:
  "ExecuteMigration ex_env [''T''] (ex_db [ex_row ''U'', ex_row ''T'', ex_row ''V''])
       [ex_migration ''T''] =
     (Some LegacyNotRevertedable,
      \<lparr>changelog = [ex_row ''T'', ex_row ''V''], schema = [''scripts/U.revert.sql''],
       trace = [CreateTable, SelectChangelog, Begin, Delete ''U'',
                Exec ''scripts/U.revert.sql'', Commit]\<rparr>)"
  by (simp add: nf_legacy[OF ex_env_nf] ex_convert_T ex_db_def
        nf_revertScript[OF ex_env_nf] ex_env_run)


lemma ex_getMigrations_Nil: "getMigrations (ex_lib []) ex_svc = (Map.empty, None)"
  by (simp add: getMigrations_def readConfigFile_def ex_lib_def ex_svc_def)


lemma ex_apply_legacy:
  "executeChangeLog ex_env (ex_db []) (ex_migration ''T'') =
     (None, \<lparr>changelog = [ex_row ''T''], schema = [''scripts/T.sql''],
             trace = [Begin, Insert ''T'' (Checksum (ex_migration ''T'')) ''scripts/T.revert.sql'',
                      Exec ''scripts/T.sql'', Commit]\<rparr>)"
  by (simp add: nf_executeChangeLog[OF ex_env_nf] ex_db_def ex_env_run row_of_def ex_row_def
      legacy_apply_tx_def)

lemma ex_apply_service:
  "executeSingleMigration ex_env (ex_db []) (ex_migration ''T'') =
     (None, \<lparr>changelog = [ex_row ''T''], schema = [''scripts/T.sql''],
             trace = [Begin, Exec ''scripts/T.sql'',
                      Insert ''T'' (Checksum (ex_migration ''T'')) ''scripts/T.revert.sql'',
                      Commit]\<rparr>)"
  by (simp add: nf_executeSingleMigration[OF ex_env_nf] ex_db_def ex_env_run row_of_def ex_row_def
      apply_tx_def)


lemma ex_row_failing_sel [simp]:
  "row_id (ex_row_failing i) = i" "row_revertscript (ex_row_failing i) = ''FAIL''"
  "row_checksum (ex_row_failing i) = Checksum (ex_migration i)"
  by (simp_all add: ex_row_failing_def)


lemma ex_service_failed_revert:
  "MigrationService_ExecuteMigration (ex_lib [''T'']) ex_env [''T''] ex_svc
     (ex_db [ex_row_failing ''U'', ex_row ''V'']) =
     (Some FailedToExecuteRevertScript,
      \<lparr>changelog = [ex_row_failing ''U'', ex_row ''V''], schema = [],
       trace = [CreateTable, SelectChangelog, Begin, Exec ''FAIL'', Rollback]\<rparr>)"
  by (simp add: nf_service[OF ex_env_nf ex_getMigrations_T] ex_db_def
        nf_revertSingleMigration[OF ex_env_nf] ex_env_run)

lemma ex_getMigrations_AB:
  "getMigrations (ex_lib [''A'', ''B'']) ex_svc =
     ([''A'' \<mapsto> ex_migration ''A'', ''B'' \<mapsto> ex_migration ''B''], None)"
  by (simp add: getMigrations_def readConfigFile_def ex_lib_def ex_svc_def extractMigration_def
      readFileContent_def ex_migration_def)

lemma ex_convert_AB:
  "convertMigrationToMap [ex_migration ''A'', ex_migration ''B''] =
     [''A'' \<mapsto> ex_migration ''A'', ''B'' \<mapsto> ex_migration ''B'']"
  by (simp add: convertMigrationToMap_def)


lemma ex_getMigrations_AA:
  "getMigrations (ex_lib [''A'', ''A'']) ex_svc = ([''A'' \<mapsto> ex_migration ''A''], None)"
  by (simp add: getMigrations_def readConfigFile_def ex_lib_def ex_svc_def extractMigration_def
      readFileContent_def ex_migration_def)


lemma ex_run_service_A:
  "MigrationService_ExecuteMigration (ex_lib [''A'', ''B'']) ex_env [''B'', ''A''] ex_svc
     (ex_db [ex_row ''A'']) =
     (None,
      \<lparr>changelog = [ex_row ''B'', ex_row ''A''], schema = [''scripts/B.sql''],
       trace = [CreateTable, SelectChangelog, Begin, Exec ''scripts/B.sql'',
                Insert ''B'' (Checksum (ex_migration ''B'')) ''scripts/B.revert.sql'', Commit]\<rparr>)"
  by (simp add: nf_service[OF ex_env_nf ex_getMigrations_AB] ex_db_def
        nf_executeSingleMigration[OF ex_env_nf] ex_env_run row_of_def ex_row_def apply_tx_def)

lemma ex_run_legacy_A:
  "ExecuteMigration ex_env [''B''] (ex_db [ex_row ''A''])
     [ex_migration ''A'', ex_migration ''B''] =
     (None,
      \<lparr>changelog = [ex_row ''B'', ex_row ''A''], schema = [''scripts/B.sql''],
       trace = [CreateTable, SelectChangelog, Begin,
                Insert ''B'' (Checksum (ex_migration ''B'')) ''scripts/B.revert.sql'',
                Exec ''scripts/B.sql'', Commit]\<rparr>)"
  by (simp add: nf_legacy[OF ex_env_nf] ex_convert_AB ex_db_def
        nf_executeChangeLog[OF ex_env_nf] ex_env_run row_of_def ex_row_def legacy_apply_tx_def)


lemma ex_legacy_first_run:
  "ExecuteMigration ex_env [] (ex_db [ex_row_failing ''U'']) [] =
     (None, \<lparr>changelog = [ex_row_failing ''U''], schema = [],
             trace = [CreateTable, SelectChangelog, Begin, Delete ''U'', Exec ''FAIL'']\<rparr>)"
  by (simp add: nf_legacy[OF ex_env_nf] ex_db_def nf_revertScript[OF ex_env_nf] ex_env_run)

lemma ex_legacy_second_run:
  "ExecuteMigration ex_env []
     \<lparr>changelog = [ex_row_failing ''U''], schema = [],
      trace = [CreateTable, SelectChangelog, Begin, Delete ''U'', Exec ''FAIL'']\<rparr> [] =
     (None, \<lparr>changelog = [ex_row_failing ''U''], schema = [],
             trace = [CreateTable, SelectChangelog, Begin, Delete ''U'', Exec ''FAIL'',
                      CreateTable, SelectChangelog, Begin, Delete ''U'', Exec ''FAIL'']\<rparr>)"
  by (simp add: nf_legacy[OF ex_env_nf] nf_revertScript[OF ex_env_nf] ex_env_run)


lemma ex_run_service_BA:
  "MigrationService_ExecuteMigration (ex_lib [''A'', ''B'']) ex_env [''B'', ''A''] ex_svc
       (ex_db []) =
     (None,
      \<lparr>changelog = [ex_row ''A'', ex_row ''B''],
       schema = [''scripts/B.sql'', ''scripts/A.sql''],
       trace = [CreateTable, SelectChangelog,
                Begin, Exec ''scripts/B.sql'',
                Insert ''B'' (Checksum (ex_migration ''B'')) ''scripts/B.revert.sql'', Commit,
                Begin, Exec ''scripts/A.sql'',
                Insert ''A'' (Checksum (ex_migration ''A'')) ''scripts/A.revert.sql'', Commit]\<rparr>)"
  by (simp add: nf_service[OF ex_env_nf ex_getMigrations_AB] ex_db_def
        nf_executeSingleMigration[OF ex_env_nf] ex_env_run
        row_of_def ex_row_def apply_tx_def)

lemma ex_run_legacy_BA:
  "ExecuteMigration ex_env [''B'', ''A''] (ex_db [])
       [ex_migration ''A'', ex_migration ''B''] =
     (None,
      \<lparr>changelog = [ex_row ''A'', ex_row ''B''],
       schema = [''scripts/B.sql'', ''scripts/A.sql''],
       trace = [CreateTable, SelectChangelog,
                Begin, Insert ''B'' (Checksum (ex_migration ''B'')) ''scripts/B.revert.sql'',
                Exec ''scripts/B.sql'', Commit,
                Begin, Insert ''A'' (Checksum (ex_migration ''A'')) ''scripts/A.revert.sql'',
                Exec ''scripts/A.sql'', Commit]\<rparr>)"
  by (simp add: nf_legacy[OF ex_env_nf] ex_convert_AB ex_db_def
        nf_executeChangeLog[OF ex_env_nf] ex_env_run
        row_of_def ex_row_def legacy_apply_tx_def)

lemma ex_pending_BA:
  "pending [''A'' \<mapsto> ex_migration ''A'', ''B'' \<mapsto> ex_migration ''B''] [''B'', ''A'']
     (changelog (ex_db [])) = [ex_migration ''B'', ex_migration ''A'']"
  by (simp add: pending_def ex_db_def)

lemma ex_convert_dup:
  "convertMigrationToMap [ex_migration ''A'', (ex_migration ''A'')\<lparr>Script := ''other''\<rparr>] =
     [''A'' \<mapsto> (ex_migration ''A'')\<lparr>Script := ''other''\<rparr>]"
  by (simp add: convertMigrationToMap_def)

lemma ex_run_legacy_dup:
  "ExecuteMigration ex_env [''A''] (ex_db [])
     [ex_migration ''A'', (ex_migration ''A'')\<lparr>Script := ''other''\<rparr>] =
     (None,
      \<lparr>changelog = [ex_row ''A''], schema = [''other''],
       trace = [CreateTable, SelectChangelog, Begin,
                Insert ''A'' (Checksum (ex_migration ''A'')) ''scripts/A.revert.sql'',
                Exec ''other'', Commit]\<rparr>)"
  by (simp add: nf_legacy[OF ex_env_nf] ex_convert_dup ex_db_def
        nf_executeChangeLog[OF ex_env_nf] ex_env_run row_of_def ex_row_def legacy_apply_tx_def)

lemma ex_run_service_dup:
  "MigrationService_ExecuteMigration (ex_lib [''A'', ''A'']) ex_env [''A''] ex_svc (ex_db []) =
     (None,
      \<lparr>changelog = [ex_row ''A''], schema = [''scripts/A.sql''],
       trace = [CreateTable, SelectChangelog, Begin, Exec ''scripts/A.sql'',
                Insert ''A'' (Checksum (ex_migration ''A'')) ''scripts/A.revert.sql'',
                Commit]\<rparr>)"
  by (simp add: nf_service[OF ex_env_nf ex_getMigrations_AA] ex_db_def
        nf_executeSingleMigration[OF ex_env_nf] ex_env_run row_of_def ex_row_def apply_tx_def)

lemma ex_readConfigFile_AA: "readConfigFile (ex_lib [''A'', ''A'']) ex_svc = Inr [''A'', ''A'']"
  by (simp add: readConfigFile_def ex_lib_def ex_svc_def)


section \<open>Runs in which anything may fail\<close>

lemma inserted_ids_append [simp]: "inserted_ids (s @ t) = inserted_ids s @ inserted_ids t"
  by (induction s rule: inserted_ids.induct) auto

lemma executed_scripts_append [simp]:
  "executed_scripts (s @ t) = executed_scripts s @ executed_scripts t"
  by (induction s rule: executed_scripts.induct) auto

lemma inserted_ids_apply_tx [simp]:
  "inserted_ids (apply_tx m) = [Id' m]" "inserted_ids (legacy_apply_tx m) = [Id' m]"
  "executed_scripts (apply_tx m) = [Script m]" "executed_scripts (legacy_apply_tx m) = [Script m]"
  by (simp_all add: apply_tx_def legacy_apply_tx_def)

lemma executeSingleMigration_trace:
  "executeSingleMigration env db m = (r, db') \<Longrightarrow>
   \<exists>t. trace db' = trace db @ t \<and>
       (inserted_ids t = [] \<or> inserted_ids t = [Id' m]) \<and>
       (executed_scripts t = [] \<or> executed_scripts t = [Script m])"
  by (auto simp: executeSingleMigration_def BeginTx_def tx_ExecScript_def tx_ExecInsert_def
       tx_Commit_def tx_Rollback_def call_def
       split: prod.splits bool.splits sum.splits option.splits if_splits)

lemma executeChangeLog_trace:
  "executeChangeLog env db m = (r, db') \<Longrightarrow>
   \<exists>t. trace db' = trace db @ t \<and>
       (inserted_ids t = [] \<or> inserted_ids t = [Id' m]) \<and>
       (executed_scripts t = [] \<or> executed_scripts t = [Script m])"
  by (auto simp: executeChangeLog_def BeginTx_def tx_ExecScript_def tx_ExecInsert_def
       tx_Commit_def tx_Rollback_def call_def
       split: prod.splits bool.splits sum.splits option.splits if_splits)

lemma revertSingleMigration_trace:
  "revertSingleMigration env db m = (r, db') \<Longrightarrow>
   \<exists>t. trace db' = trace db @ t \<and> inserted_ids t = [] \<and>
       set (executed_scripts t) \<subseteq> {RevertScript m}"
  by (auto simp: revertSingleMigration_def BeginTx_def tx_ExecScript_def tx_ExecDelete_def
       tx_Commit_def tx_Rollback_def call_def
       split: prod.splits bool.splits sum.splits option.splits if_splits)

lemma revertScript_trace:
  "revertScript env db m = (r, db') \<Longrightarrow>
   \<exists>t. trace db' = trace db @ t \<and> inserted_ids t = [] \<and>
       set (executed_scripts t) \<subseteq> {RevertScript m}"
  by (auto simp: revertScript_def BeginTx_def tx_ExecScript_def tx_ExecDelete_def
       tx_Commit_def tx_Rollback_def call_def
       split: prod.splits bool.splits sum.splits option.splits if_splits)

text \<open>The walk of the service, whatever fails.\<close>

lemma checkExisting_loop_general:
  "checkExisting_loop env desired b (map scan_row rows) db = (r, db') \<Longrightarrow>
   \<exists>t. trace db' = trace db @ t \<and> inserted_ids t = [] \<and>
       set (executed_scripts t) \<subseteq> set (map row_revertscript rows) \<and>
       (r = None \<longrightarrow>
          changelog db' =
            filter (\<lambda>x. row_id x \<notin> row_id ` {u \<in> set rows. undesired desired u}) (changelog db) \<and>
          (\<forall>x\<in>set rows. \<not> undesired desired x \<longrightarrow> kept_unchanged desired x))"
proof (induction rows arbitrary: b db)
  case Nil
  then show ?case by simp
next
  case (Cons x rows)
  show ?case
  proof (cases "desired (row_id x)")
    case (Some m)
    then have nu: "\<not> undesired desired x" by (simp add: undesired_def)
    show ?thesis
    proof (cases "row_checksum x = Checksum m")
      case True
      then have rec: "checkExisting_loop env desired True (map scan_row rows) db = (r, db')"
        using Cons.prems Some by simp
      have ku: "kept_unchanged desired x" using Some True by (simp add: kept_unchanged_def)
      have eq: "{u \<in> set (x # rows). undesired desired u} = {u \<in> set rows. undesired desired u}"
        using nu by auto
      from Cons.IH[OF rec] obtain t where t: "trace db' = trace db @ t" "inserted_ids t = []"
        "set (executed_scripts t) \<subseteq> set (map row_revertscript rows)"
        "r = None \<longrightarrow>
          changelog db' =
            filter (\<lambda>x. row_id x \<notin> row_id ` {u \<in> set rows. undesired desired u}) (changelog db) \<and>
          (\<forall>x\<in>set rows. \<not> undesired desired x \<longrightarrow> kept_unchanged desired x)"
        by blast
      show ?thesis
        apply (rule exI[of _ t])
        using t ku unfolding eq by auto
    next
      case False
      then have "r \<noteq> None" "db' = db" using Cons.prems Some by auto
      then show ?thesis by auto
    qed
  next
    case None
    then have u: "undesired desired x" by (simp add: undesired_def)
    show ?thesis
    proof (cases b)
      case True
      then have "r \<noteq> None" "db' = db" using Cons.prems None by auto
      then show ?thesis by auto
    next
      case False
      obtain r1 db1 where rv: "revertSingleMigration env db (scan_row x) = (r1, db1)"
        by (cases "revertSingleMigration env db (scan_row x)")
      from revertSingleMigration_trace[OF rv] obtain t1 where t1: "trace db1 = trace db @ t1"
        "inserted_ids t1 = []" "set (executed_scripts t1) \<subseteq> {row_revertscript x}"
        by auto
      show ?thesis
      proof (cases r1)
        case (Some e)
        then have "r \<noteq> None" "db' = db1" using Cons.prems None False rv by auto
        then show ?thesis using t1 by auto
      next
        case None' : None
        then have rec: "checkExisting_loop env desired False (map scan_row rows) db1 = (r, db')"
          using Cons.prems None False rv by simp
        have cl1: "changelog db1 = filter (\<lambda>r. row_id r \<noteq> row_id x) (changelog db)"
          using revertSingleMigration_result[OF rv] None' by simp
        from Cons.IH[OF rec] obtain t where t: "trace db' = trace db1 @ t" "inserted_ids t = []"
          "set (executed_scripts t) \<subseteq> set (map row_revertscript rows)"
          "r = None \<longrightarrow>
            changelog db' =
              filter (\<lambda>x. row_id x \<notin> row_id ` {u \<in> set rows. undesired desired u}) (changelog db1) \<and>
            (\<forall>x\<in>set rows. \<not> undesired desired x \<longrightarrow> kept_unchanged desired x)"
          by blast
        have flt: "filter (\<lambda>y. row_id y \<notin> row_id ` {u \<in> set rows. undesired desired u})
                     (filter (\<lambda>r. row_id r \<noteq> row_id x) (changelog db)) =
                   filter (\<lambda>y. row_id y \<notin> row_id ` {u \<in> set (x # rows). undesired desired u})
                     (changelog db)"
          using u by (auto intro!: filter_cong)
        show ?thesis
          apply (rule exI[of _ "t1 @ t"])
          using t t1 cl1 flt u by auto
      qed
    qed
  qed
qed

text \<open>The walk of migrate.go, whatever fails.\<close>

lemma rows_loop_general:
  "rows_loop env fm b (map scan_row rows) db = (r, left, db') \<Longrightarrow>
   \<exists>t. trace db' = trace db @ t \<and> inserted_ids t = [] \<and>
       set (executed_scripts t) \<subseteq> set (map row_revertscript rows) \<and>
       (r = None \<longrightarrow> left = fm |` (- set (map row_id rows)))"
proof (induction rows arbitrary: fm b db)
  case Nil
  then show ?case by simp
next
  case (Cons x rows)
  show ?case
  proof (cases "fm (row_id x)")
    case (Some m)
    show ?thesis
    proof (cases "row_checksum x = Checksum m")
      case True
      then have rec: "rows_loop env (fm(row_id x := None)) True (map scan_row rows) db = (r, left, db')"
        using Cons.prems Some by simp
      have eq: "(fm(row_id x := None)) |` (- set (map row_id rows)) =
                fm |` (- set (map row_id (x # rows)))"
        by (auto simp: restrict_map_def fun_eq_iff)
      from Cons.IH[OF rec] show ?thesis unfolding eq by auto
    next
      case False
      then have "r \<noteq> None" "db' = db" using Cons.prems Some by auto
      then show ?thesis by auto
    qed
  next
    case None
    show ?thesis
    proof (cases b)
      case True
      then have "r \<noteq> None" "db' = db" using Cons.prems None by auto
      then show ?thesis by auto
    next
      case False
      obtain r1 db1 where rv: "revertScript env db (scan_row x) = (r1, db1)"
        by (cases "revertScript env db (scan_row x)")
      from revertScript_trace[OF rv] obtain t1 where t1: "trace db1 = trace db @ t1"
        "inserted_ids t1 = []" "set (executed_scripts t1) \<subseteq> {row_revertscript x}"
        by auto
      show ?thesis
      proof (cases "r1 = Some NilTxPanic")
        case True
        then have "r \<noteq> None" "db' = db1" using Cons.prems None False rv by auto
        then show ?thesis using t1 by auto
      next
        case np: False
        then have rec: "rows_loop env fm False (map scan_row rows) db1 = (r, left, db')"
          using Cons.prems None False rv by simp
        have eq: "fm |` (- set (map row_id rows)) = fm |` (- set (map row_id (x # rows)))"
          using None by (auto simp: restrict_map_def fun_eq_iff)
        from Cons.IH[OF rec] obtain t where t: "trace db' = trace db1 @ t" "inserted_ids t = []"
          "set (executed_scripts t) \<subseteq> set (map row_revertscript rows)"
          "r = None \<longrightarrow> left = fm |` (- set (map row_id rows))"
          by blast
        show ?thesis
          apply (rule exI[of _ "t1 @ t"])
          using t t1 unfolding eq by auto
      qed
    qed
  qed
qed

lemma take_Cons_cases:
  "xs = [] \<or> xs = [a] \<Longrightarrow> \<exists>n. xs = take n (a # ys)"
proof (erule disjE)
  assume "xs = []"
  then have "xs = take 0 (a # ys)" by simp
  then show ?thesis ..
next
  assume "xs = [a]"
  then have "xs = take 1 (a # ys)" by simp
  then show ?thesis ..
qed

lemma executePending_general:
  "executePending env existing ms db = (r, db') \<Longrightarrow>
   \<exists>t. trace db' = trace db @ t \<and>
     (\<exists>n. inserted_ids t =
            take n (map Id' [m \<leftarrow> ms. \<not> list_ex (\<lambda>e. Id' e = Id' m) existing])) \<and>
     (\<exists>n. executed_scripts t =
            take n (map Script [m \<leftarrow> ms. \<not> list_ex (\<lambda>e. Id' e = Id' m) existing])) \<and>
     (r = None \<longrightarrow>
        t = concat (map apply_tx [m \<leftarrow> ms. \<not> list_ex (\<lambda>e. Id' e = Id' m) existing]) \<and>
        changelog db' =
          rev (map row_of [m \<leftarrow> ms. \<not> list_ex (\<lambda>e. Id' e = Id' m) existing]) @ changelog db)"
proof (induction ms arbitrary: db)
  case Nil
  then show ?case by simp
next
  case (Cons m ms)
  let ?P = "\<lambda>m. \<not> list_ex (\<lambda>e. Id' e = Id' m) existing"
  show ?case
  proof (cases "?P m")
    case False
    then have "executePending env existing ms db = (r, db')"
      using Cons.prems by simp
    from Cons.IH[OF this] show ?thesis using False by simp
  next
    case True
    obtain r1 db1 where ex: "executeSingleMigration env db m = (r1, db1)"
      by (cases "executeSingleMigration env db m")
    from executeSingleMigration_trace[OF ex] obtain t1 where t1: "trace db1 = trace db @ t1"
      "inserted_ids t1 = [] \<or> inserted_ids t1 = [Id' m]"
      "executed_scripts t1 = [] \<or> executed_scripts t1 = [Script m]"
      by blast
    show ?thesis
    proof (cases r1)
      case (Some e)
      then have res: "r \<noteq> None" "db' = db1" using Cons.prems True ex by auto
      have a: "\<exists>n. inserted_ids t1 = take n (Id' m # map Id' (filter ?P ms))"
        using t1(2) by (rule take_Cons_cases)
      have b: "\<exists>n. executed_scripts t1 = take n (Script m # map Script (filter ?P ms))"
        using t1(3) by (rule take_Cons_cases)
      show ?thesis
        apply (rule exI[of _ t1])
        using res t1(1) a b True by auto
    next
      case None
      then have rec: "executePending env existing ms db1 = (r, db')"
        using Cons.prems True ex by simp
      have ok: "t1 = apply_tx m" "changelog db1 = row_of m # changelog db"
        using executeSingleMigration_result[OF ex] None t1(1) by simp_all
      from Cons.IH[OF rec] obtain t n k where t: "trace db' = trace db1 @ t"
        "inserted_ids t = take n (map Id' (filter ?P ms))"
        "executed_scripts t = take k (map Script (filter ?P ms))"
        "r = None \<longrightarrow> t = concat (map apply_tx (filter ?P ms)) \<and>
           changelog db' = rev (map row_of (filter ?P ms)) @ changelog db1"
        by blast
      have a: "inserted_ids (t1 @ t) = take (Suc n) (map Id' (filter ?P (m # ms)))"
        using t(2) ok(1) True by simp
      have b: "executed_scripts (t1 @ t) = take (Suc k) (map Script (filter ?P (m # ms)))"
        using t(3) ok(1) True by simp
      have c: "r = None \<longrightarrow> t1 @ t = concat (map apply_tx (filter ?P (m # ms))) \<and>
           changelog db' = rev (map row_of (filter ?P (m # ms))) @ changelog db"
        using t(4) ok True by simp
      have tr: "trace db' = trace db @ (t1 @ t)"
        using t(1) t1(1) by simp
      show ?thesis using tr a b c by blast
    qed
  qed
qed

lemma executeAll_general:
  "executeAll env ms db = (r, db') \<Longrightarrow>
   \<exists>t. trace db' = trace db @ t \<and>
     (\<exists>n. inserted_ids t = take n (map Id' ms)) \<and>
     (\<exists>n. executed_scripts t = take n (map Script ms)) \<and>
     (r = None \<longrightarrow>
        t = concat (map legacy_apply_tx ms) \<and>
        changelog db' = rev (map row_of ms) @ changelog db)"
proof (induction ms arbitrary: db)
  case Nil
  then show ?case by simp
next
  case (Cons m ms)
  obtain r1 db1 where ex: "executeChangeLog env db m = (r1, db1)"
    by (cases "executeChangeLog env db m")
  from executeChangeLog_trace[OF ex] obtain t1 where t1: "trace db1 = trace db @ t1"
    "inserted_ids t1 = [] \<or> inserted_ids t1 = [Id' m]"
    "executed_scripts t1 = [] \<or> executed_scripts t1 = [Script m]"
    by blast
  show ?case
  proof (cases r1)
    case (Some e)
    then have res: "r \<noteq> None" "db' = db1" using Cons.prems ex by auto
    have a: "\<exists>n. inserted_ids t1 = take n (Id' m # map Id' ms)"
      using t1(2) by (rule take_Cons_cases)
    have b: "\<exists>n. executed_scripts t1 = take n (Script m # map Script ms)"
      using t1(3) by (rule take_Cons_cases)
    show ?thesis
      apply (rule exI[of _ t1])
      using res t1(1) a b by auto
  next
    case None
    then have rec: "executeAll env ms db1 = (r, db')"
      using Cons.prems ex by simp
    have ok: "t1 = legacy_apply_tx m" "changelog db1 = row_of m # changelog db"
      using executeChangeLog_result[OF ex] None t1(1) by simp_all
    from Cons.IH[OF rec] obtain t n k where t: "trace db' = trace db1 @ t"
      "inserted_ids t = take n (map Id' ms)"
      "executed_scripts t = take k (map Script ms)"
      "r = None \<longrightarrow> t = concat (map legacy_apply_tx ms) \<and>
         changelog db' = rev (map row_of ms) @ changelog db1"
      by blast
    have a: "inserted_ids (t1 @ t) = take (Suc n) (map Id' (m # ms))"
      using t(2) ok(1) by simp
    have b: "executed_scripts (t1 @ t) = take (Suc k) (map Script (m # ms))"
      using t(3) ok(1) by simp
    have c: "r = None \<longrightarrow> t1 @ t = concat (map legacy_apply_tx (m # ms)) \<and>
         changelog db' = rev (map row_of (m # ms)) @ changelog db"
      using t(4) ok by simp
    have tr: "trace db' = trace db @ (t1 @ t)"
      using t(1) t1(1) by simp
    show ?thesis using tr a b c by blast
  qed
qed

lemma list_ex_scan_row:
  "list_ex (\<lambda>e. Id' e = k) (map scan_row rows) \<longleftrightarrow> k \<in> set (map row_id rows)"
  by (induction rows) auto

lemma filter_not_existing:
  "[m \<leftarrow> ms. \<not> list_ex (\<lambda>e. Id' e = Id' m) (map scan_row rows)] =
   [m \<leftarrow> ms. Id' m \<notin> set (map row_id rows)]"
  by (simp add: list_ex_scan_row)

lemma filter_undesired_ids:
  "filter (\<lambda>x. row_id x \<notin> row_id ` {u \<in> set rows. undesired desired u}) rows =
   filter (\<lambda>x. \<not> undesired desired x) rows"
  by (rule filter_cong) (auto simp: undesired_def)

lemma call_trace: "call env st db = (f, db1) \<Longrightarrow>
  trace db1 = trace db @ [st] \<and> changelog db1 = changelog db \<and> schema db1 = schema db"
  by (auto simp: call_def)

lemma service_run_general:
  assumes gm: "getMigrations lib svc = (desired, None)"
    and run: "MigrationService_ExecuteMigration lib env ks svc db = (r, db')"
  shows "\<exists>t_walk t_apply.
      new_trace db db' = t_walk @ t_apply \<and> inserted_ids t_walk = [] \<and>
      set (executed_scripts t_walk) \<subseteq> set (map row_revertscript (changelog db)) \<and>
      (\<exists>n. inserted_ids t_apply =
         take n (map Id' [m \<leftarrow> range_values desired ks. Id' m \<notin> set (map row_id (changelog db))])) \<and>
      (\<exists>n. executed_scripts t_apply =
         take n (map Script [m \<leftarrow> range_values desired ks. Id' m \<notin> set (map row_id (changelog db))])) \<and>
      (r = None \<longrightarrow>
         t_apply = concat (map apply_tx
            [m \<leftarrow> range_values desired ks. Id' m \<notin> set (map row_id (changelog db))]) \<and>
         changelog db' =
           rev (map row_of [m \<leftarrow> range_values desired ks. Id' m \<notin> set (map row_id (changelog db))])
           @ filter (\<lambda>x. \<not> undesired desired x) (changelog db) \<and>
         (\<forall>x\<in>set (changelog db). \<not> undesired desired x \<longrightarrow> kept_unchanged desired x))"
proof -
  let ?pend = "[m \<leftarrow> range_values desired ks. Id' m \<notin> set (map row_id (changelog db))]"
  let ?goal = "\<lambda>r db'. \<exists>t_walk t_apply.
      new_trace db db' = t_walk @ t_apply \<and> inserted_ids t_walk = [] \<and>
      set (executed_scripts t_walk) \<subseteq> set (map row_revertscript (changelog db)) \<and>
      (\<exists>n. inserted_ids t_apply = take n (map Id' ?pend)) \<and>
      (\<exists>n. executed_scripts t_apply = take n (map Script ?pend)) \<and>
      (r = None \<longrightarrow>
         t_apply = concat (map apply_tx ?pend) \<and>
         changelog db' = rev (map row_of ?pend) @ filter (\<lambda>x. \<not> undesired desired x) (changelog db) \<and>
         (\<forall>x\<in>set (changelog db). \<not> undesired desired x \<longrightarrow> kept_unchanged desired x))"
  have z1: "\<exists>n. inserted_ids [] = take n (map Id' ?pend)" by (rule exI[of _ 0]) simp
  have z2: "\<exists>n. executed_scripts [] = take n (map Script ?pend)" by (rule exI[of _ 0]) simp
  have early: "?goal r db'" if "r \<noteq> None" "new_trace db db' = t" "inserted_ids t = []"
      "set (executed_scripts t) \<subseteq> set (map row_revertscript (changelog db))" for t
  proof -
    have a: "new_trace db db' = t @ []" using that(2) by simp
    have b: "r = None \<longrightarrow>
         [] = concat (map apply_tx ?pend) \<and>
         changelog db' = rev (map row_of ?pend) @ filter (\<lambda>x. \<not> undesired desired x) (changelog db) \<and>
         (\<forall>x\<in>set (changelog db). \<not> undesired desired x \<longrightarrow> kept_unchanged desired x)"
      using that(1) by blast
    show ?thesis using a that(3,4) z1 z2 b by blast
  qed
  obtain f1 db1 where c1: "call env CreateTable db = (f1, db1)"
    by (cases "call env CreateTable db")
  note d1 = call_trace[OF c1]
  show ?thesis
  proof (cases f1)
    case True
    then have "r = Some DriverError" "db' = db1"
      using run c1 by (simp_all add: MigrationService_ExecuteMigration_def prepareDatabase_def)
    then show ?thesis using early[of "[CreateTable]"] d1 by simp
  next
    case f1: False
    obtain f2 db2 where c2: "call env SelectChangelog db1 = (f2, db2)"
      by (cases "call env SelectChangelog db1")
    note d2 = call_trace[OF c2]
    show ?thesis
    proof (cases f2)
      case True
      then have "r = Some DriverError" "db' = db2"
        using run c1 c2 f1 gm
        by (simp_all add: MigrationService_ExecuteMigration_def prepareDatabase_def
            getExistingMigrations_def)
      then show ?thesis using early[of "[CreateTable, SelectChangelog]"] d1 d2 by simp
    next
      case f2: False
      have cl2: "changelog db2 = changelog db" using d1 d2 by simp
      obtain r3 db3 where w: "checkExisting_loop env desired False
            (map scan_row (changelog db)) db2 = (r3, db3)"
        by (cases "checkExisting_loop env desired False (map scan_row (changelog db)) db2")
      from checkExisting_loop_general[OF w] obtain tw where tw: "trace db3 = trace db2 @ tw"
        "inserted_ids tw = []"
        "set (executed_scripts tw) \<subseteq> set (map row_revertscript (changelog db))"
        "r3 = None \<longrightarrow>
          changelog db3 =
            filter (\<lambda>x. row_id x \<notin> row_id ` {u \<in> set (changelog db). undesired desired u})
              (changelog db2) \<and>
          (\<forall>x\<in>set (changelog db). \<not> undesired desired x \<longrightarrow> kept_unchanged desired x)"
        by blast
      have tr3: "trace db3 = trace db @ ([CreateTable, SelectChangelog] @ tw)"
        using tw(1) d1 d2 by simp
      show ?thesis
      proof (cases r3)
        case (Some e)
        then have "r = Some e" "db' = db3"
          using run c1 c2 f1 f2 gm w cl2
          by (simp_all add: MigrationService_ExecuteMigration_def prepareDatabase_def
              getExistingMigrations_def checkExistingChangelogs_def)
        then show ?thesis
          using early[of "[CreateTable, SelectChangelog] @ tw"] tr3 tw(2,3) by simp
      next
        case None
        then have p: "executePending env (map scan_row (changelog db))
                        (range_values desired ks) db3 = (r, db')"
          using run c1 c2 f1 f2 gm w cl2
          by (simp add: MigrationService_ExecuteMigration_def prepareDatabase_def
              getExistingMigrations_def checkExistingChangelogs_def)
        from executePending_general[OF p, unfolded filter_not_existing]
        obtain ta where ta: "trace db' = trace db3 @ ta"
          "\<exists>n. inserted_ids ta = take n (map Id' ?pend)"
          "\<exists>n. executed_scripts ta = take n (map Script ?pend)"
          "r = None \<longrightarrow> ta = concat (map apply_tx ?pend) \<and>
             changelog db' = rev (map row_of ?pend) @ changelog db3"
          by blast
        have cl3: "changelog db3 = filter (\<lambda>x. \<not> undesired desired x) (changelog db)"
          and ku: "\<forall>x\<in>set (changelog db). \<not> undesired desired x \<longrightarrow> kept_unchanged desired x"
          using tw(4) None d1 d2 filter_undesired_ids[of "changelog db" desired] by simp_all
        have nt: "new_trace db db' = ([CreateTable, SelectChangelog] @ tw) @ ta"
          using ta(1) tr3 by simp
        have iw: "inserted_ids ([CreateTable, SelectChangelog] @ tw) = []"
          using tw(2) by simp
        have ew: "set (executed_scripts ([CreateTable, SelectChangelog] @ tw))
                    \<subseteq> set (map row_revertscript (changelog db))"
          using tw(3) by simp
        have fin: "r = None \<longrightarrow> ta = concat (map apply_tx ?pend) \<and>
             changelog db' = rev (map row_of ?pend) @ filter (\<lambda>x. \<not> undesired desired x) (changelog db) \<and>
             (\<forall>x\<in>set (changelog db). \<not> undesired desired x \<longrightarrow> kept_unchanged desired x)"
          using ta(4) cl3 ku by simp
        show ?thesis using nt iw ew ta(2,3) fin by blast
      qed
    qed
  qed
qed

lemma legacy_run_general:
  assumes run: "ExecuteMigration env ks db ms = (r, db')"
  shows "\<exists>t_walk t_apply.
      new_trace db db' = t_walk @ t_apply \<and> inserted_ids t_walk = [] \<and>
      set (executed_scripts t_walk) \<subseteq> set (map row_revertscript (changelog db)) \<and>
      (\<exists>n. inserted_ids t_apply = take n (map Id' (range_values
         (convertMigrationToMap ms |` (- set (map row_id (changelog db)))) ks))) \<and>
      (\<exists>n. executed_scripts t_apply = take n (map Script (range_values
         (convertMigrationToMap ms |` (- set (map row_id (changelog db)))) ks))) \<and>
      (r = None \<longrightarrow>
         t_apply = concat (map legacy_apply_tx (range_values
            (convertMigrationToMap ms |` (- set (map row_id (changelog db)))) ks)))"
proof -
  let ?pend = "range_values (convertMigrationToMap ms |` (- set (map row_id (changelog db)))) ks"
  let ?goal = "\<lambda>r db'. \<exists>t_walk t_apply.
      new_trace db db' = t_walk @ t_apply \<and> inserted_ids t_walk = [] \<and>
      set (executed_scripts t_walk) \<subseteq> set (map row_revertscript (changelog db)) \<and>
      (\<exists>n. inserted_ids t_apply = take n (map Id' ?pend)) \<and>
      (\<exists>n. executed_scripts t_apply = take n (map Script ?pend)) \<and>
      (r = None \<longrightarrow> t_apply = concat (map legacy_apply_tx ?pend))"
  have z1: "\<exists>n. inserted_ids [] = take n (map Id' ?pend)" by (rule exI[of _ 0]) simp
  have z2: "\<exists>n. executed_scripts [] = take n (map Script ?pend)" by (rule exI[of _ 0]) simp
  have early: "?goal r db'" if "r \<noteq> None" "new_trace db db' = t" "inserted_ids t = []"
      "set (executed_scripts t) \<subseteq> set (map row_revertscript (changelog db))" for t
  proof -
    have a: "new_trace db db' = t @ []" using that(2) by simp
    have b: "r = None \<longrightarrow> [] = concat (map legacy_apply_tx ?pend)"
      using that(1) by blast
    show ?thesis using a that(3,4) z1 z2 b by blast
  qed
  obtain f1 db1 where c1: "call env CreateTable db = (f1, db1)"
    by (cases "call env CreateTable db")
  note d1 = call_trace[OF c1]
  show ?thesis
  proof (cases f1)
    case True
    then have "r = Some DriverError" "db' = db1"
      using run c1 by (simp_all add: ExecuteMigration_def)
    then show ?thesis using early[of "[CreateTable]"] d1 by simp
  next
    case f1: False
    obtain f2 db2 where c2: "call env SelectChangelog db1 = (f2, db2)"
      by (cases "call env SelectChangelog db1")
    note d2 = call_trace[OF c2]
    show ?thesis
    proof (cases f2)
      case True
      then have "r = Some DriverError" "db' = db2"
        using run c1 c2 f1 by (simp_all add: ExecuteMigration_def)
      then show ?thesis using early[of "[CreateTable, SelectChangelog]"] d1 d2 by simp
    next
      case f2: False
      have cl2: "changelog db2 = changelog db" using d1 d2 by simp
      obtain r3 left db3 where w: "rows_loop env (convertMigrationToMap ms) False
            (map scan_row (changelog db)) db2 = (r3, left, db3)"
        by (cases "rows_loop env (convertMigrationToMap ms) False (map scan_row (changelog db)) db2")
      from rows_loop_general[OF w] obtain tw where tw: "trace db3 = trace db2 @ tw"
        "inserted_ids tw = []"
        "set (executed_scripts tw) \<subseteq> set (map row_revertscript (changelog db))"
        "r3 = None \<longrightarrow> left = convertMigrationToMap ms |` (- set (map row_id (changelog db)))"
        by blast
      have tr3: "trace db3 = trace db @ ([CreateTable, SelectChangelog] @ tw)"
        using tw(1) d1 d2 by simp
      show ?thesis
      proof (cases r3)
        case (Some e)
        then have "r = Some e" "db' = db3"
          using run c1 c2 f1 f2 w cl2 by (simp_all add: ExecuteMigration_def)
        then show ?thesis
          using early[of "[CreateTable, SelectChangelog] @ tw"] tr3 tw(2,3) by simp
      next
        case None
        then have l: "left = convertMigrationToMap ms |` (- set (map row_id (changelog db)))"
          using tw(4) by simp
        have p: "executeAll env ?pend db3 = (r, db')"
          using run c1 c2 f1 f2 w cl2 None l by (simp add: ExecuteMigration_def)
        from executeAll_general[OF p]
        obtain ta where ta: "trace db' = trace db3 @ ta"
          "\<exists>n. inserted_ids ta = take n (map Id' ?pend)"
          "\<exists>n. executed_scripts ta = take n (map Script ?pend)"
          "r = None \<longrightarrow> ta = concat (map legacy_apply_tx ?pend) \<and>
             changelog db' = rev (map row_of ?pend) @ changelog db3"
          by blast
        have nt: "new_trace db db' = ([CreateTable, SelectChangelog] @ tw) @ ta"
          using ta(1) tr3 by simp
        have iw: "inserted_ids ([CreateTable, SelectChangelog] @ tw) = []"
          using tw(2) by simp
        have ew: "set (executed_scripts ([CreateTable, SelectChangelog] @ tw))
                    \<subseteq> set (map row_revertscript (changelog db))"
          using tw(3) by simp
        have fin: "r = None \<longrightarrow> ta = concat (map legacy_apply_tx ?pend)"
          using ta(4) by simp
        show ?thesis using nt iw ew ta(2,3) fin by blast
      qed
    qed
  qed
qed

text \<open>The pending migrations under an order of the map.\<close>

lemma range_values_range_order:
  assumes key: "\<forall>k v. m k = Some v \<longrightarrow> Id' v = k" and ro: "range_order m ks"
  shows "map Id' (range_values m ks) = ks"
proof -
  have "filter (\<lambda>k. k \<in> dom m) ks = ks"
    using ro by (simp add: range_order_def)
  then show ?thesis using range_values_ids[OF key, of ks] by simp
qed

lemma pending_service:
  assumes key: "\<forall>k v. desired k = Some v \<longrightarrow> Id' v = k" and ro: "range_order desired ks"
  shows "distinct (map Id' [m \<leftarrow> range_values desired ks. Id' m \<notin> S]) \<and>
         set (map Id' [m \<leftarrow> range_values desired ks. Id' m \<notin> S]) = dom desired - S"
proof -
  have "map Id' [m \<leftarrow> range_values desired ks. Id' m \<notin> S] =
        [k \<leftarrow> map Id' (range_values desired ks). k \<notin> S]"
    by (simp add: filter_map comp_def)
  also have "\<dots> = [k \<leftarrow> ks. k \<notin> S]"
    using range_values_range_order[OF key ro] by simp
  finally show ?thesis using ro by (auto simp: range_order_def)
qed

lemma pending_legacy:
  assumes key: "\<forall>k v. desired k = Some v \<longrightarrow> Id' v = k"
    and ro: "range_order (desired |` (- S)) ks"
  shows "distinct (map Id' (range_values (desired |` (- S)) ks)) \<and>
         set (map Id' (range_values (desired |` (- S)) ks)) = dom desired - S"
proof -
  have key': "\<forall>k v. (desired |` (- S)) k = Some v \<longrightarrow> Id' v = k"
    using key by (auto simp: restrict_map_def split: if_splits)
  have "map Id' (range_values (desired |` (- S)) ks) = ks"
    by (rule range_values_range_order[OF key' ro])
  then show ?thesis using ro by (auto simp: range_order_def)
qed

lemma range_values_restrict:
  assumes key: "\<forall>k v. m k = Some v \<longrightarrow> Id' v = k"
  shows "range_values (m |` (- S)) ks = [v \<leftarrow> range_values m ks. Id' v \<notin> S]"
  using key by (induction ks) (auto simp: restrict_map_def split: option.splits)

lemma take_props:
  assumes "xs = take n ys" "distinct ys"
  shows "distinct xs \<and> set xs \<subseteq> set ys"
  using assms by (auto dest: in_set_takeD)


text \<open>A second run of the service after a run without error.\<close>

lemma range_values_mem:
  "m \<in> set (range_values desired ks) \<Longrightarrow> \<exists>k. desired k = Some m"
  by (induction ks) (auto split: option.splits)

lemma executePending_all_skipped:
  "\<forall>m\<in>set ms. list_ex (\<lambda>e. Id' e = Id' m) existing \<Longrightarrow>
   executePending env existing ms db = (None, db)"
  by (induction ms) auto

lemma service_idempotent:
  assumes gm: "getMigrations lib svc = (desired, None)"
    and ro: "range_order desired ks"
    and run1: "MigrationService_ExecuteMigration lib env ks svc db = (None, db1)"
    and run2: "MigrationService_ExecuteMigration lib env' ks' svc db1 = (r2, db2)"
  shows "executed_scripts (new_trace db1 db2) = [] \<and> inserted_ids (new_trace db1 db2) = [] \<and>
         changelog db2 = changelog db1 \<and> schema db2 = schema db1 \<and>
         (r2 = None \<or> r2 = Some DriverError)"
proof -
  let ?ids = "set (map row_id (changelog db))"
  let ?p = "[m \<leftarrow> range_values desired ks. Id' m \<notin> ?ids]"
  have key: "\<forall>k v. desired k = Some v \<longrightarrow> Id' v = k"
    using gm getMigrations_key by blast
  from service_run_general[OF gm run1]
  have cl1: "changelog db1 = rev (map row_of ?p) @ filter (\<lambda>x. \<not> undesired desired x) (changelog db)"
    and ku: "\<forall>x\<in>set (changelog db). \<not> undesired desired x \<longrightarrow> kept_unchanged desired x"
    by auto
  have pk: "kept_unchanged desired (row_of m)" if "m \<in> set ?p" for m
  proof -
    from that obtain k where "desired k = Some m" using range_values_mem by fastforce
    moreover then have "Id' m = k" using key by blast
    ultimately show ?thesis by (simp add: kept_unchanged_def row_of_def)
  qed
  have all_kept: "list_all (kept_unchanged desired) (changelog db1)"
    unfolding cl1 using pk ku by (auto simp: list_all_iff)
  have pp: "set (map Id' ?p) = dom desired - ?ids"
    using pending_service[OF key ro, of ?ids] by simp
  have ids1: "dom desired \<subseteq> set (map row_id (changelog db1))"
  proof
    fix k assume k: "k \<in> dom desired"
    show "k \<in> set (map row_id (changelog db1))"
    proof (cases "k \<in> ?ids")
      case True
      then obtain x where "x \<in> set (changelog db)" "row_id x = k" by auto
      moreover then have "\<not> undesired desired x" using k by (auto simp: undesired_def)
      ultimately show ?thesis unfolding cl1 by force
    next
      case False
      then have "k \<in> set (map Id' ?p)" using pp k by simp
      then obtain m where "m \<in> set ?p" "Id' m = k" by auto
      then have "row_of m \<in> set (changelog db1)" "row_id (row_of m) = k"
        unfolding cl1 by (auto simp: row_of_def)
      then show ?thesis by force
    qed
  qed
  have skip: "\<forall>m\<in>set (range_values desired ks').
                list_ex (\<lambda>e. Id' e = Id' m) (map scan_row (changelog db1))"
  proof
    fix m assume "m \<in> set (range_values desired ks')"
    then obtain k where "desired k = Some m" using range_values_mem by fastforce
    then have "Id' m \<in> dom desired" using key by auto
    then show "list_ex (\<lambda>e. Id' e = Id' m) (map scan_row (changelog db1))"
      using ids1 by (auto simp: list_ex_scan_row)
  qed
  obtain f1 dba where c1: "call env' CreateTable db1 = (f1, dba)"
    by (cases "call env' CreateTable db1")
  note d1 = call_trace[OF c1]
  show ?thesis
  proof (cases f1)
    case True
    then have "r2 = Some DriverError" "db2 = dba"
      using run2 c1 by (simp_all add: MigrationService_ExecuteMigration_def prepareDatabase_def)
    then show ?thesis using d1 by simp
  next
    case f1: False
    obtain f2 dbb where c2: "call env' SelectChangelog dba = (f2, dbb)"
      by (cases "call env' SelectChangelog dba")
    note d2 = call_trace[OF c2]
    show ?thesis
    proof (cases f2)
      case True
      then have "r2 = Some DriverError" "db2 = dbb"
        using run2 c1 c2 f1 gm
        by (simp_all add: MigrationService_ExecuteMigration_def prepareDatabase_def
            getExistingMigrations_def)
      then show ?thesis using d1 d2 by simp
    next
      case f2: False
      have clb: "changelog dbb = changelog db1" using d1 d2 by simp
      have w: "checkExisting_loop env' desired False (map scan_row (changelog db1)) dbb = (None, dbb)"
        using loop_kept[OF all_kept, of env' False "[]" dbb] by simp
      have p: "executePending env' (map scan_row (changelog db1)) (range_values desired ks') dbb
                 = (None, dbb)"
        by (rule executePending_all_skipped[OF skip])
      have "r2 = None" "db2 = dbb"
        using run2 c1 c2 f1 f2 gm w p clb
        by (simp_all add: MigrationService_ExecuteMigration_def prepareDatabase_def
            getExistingMigrations_def checkExistingChangelogs_def)
      then show ?thesis using d1 d2 by simp
    qed
  qed
qed


text \<open>The apply loops when nothing fails.\<close>

lemma nf_executePending:
  assumes nf: "\<forall>n. \<not> fault env n"
  shows "distinct (map Id' (pending_of ms)) \<Longrightarrow>
   \<forall>m\<in>set (pending_of ms). Id' m \<notin> set (map row_id (changelog db)) \<Longrightarrow>
   run_all env (map Script (pending_of ms)) (schema db) = Some sch \<Longrightarrow>
   pending_of = filter (\<lambda>m. \<not> list_ex (\<lambda>e. Id' e = Id' m) existing) \<Longrightarrow>
   executePending env existing ms db =
     (None, db\<lparr>changelog := rev (map row_of (pending_of ms)) @ changelog db, schema := sch,
               trace := trace db @ concat (map apply_tx (pending_of ms))\<rparr>)"
proof (induction ms arbitrary: db)
  case Nil
  then show ?case by (cases db) simp
next
  case (Cons m ms)
  note pf = Cons.prems(4)
  show ?case
  proof (cases "list_ex (\<lambda>e. Id' e = Id' m) existing")
    case True
    then have eq: "pending_of (m # ms) = pending_of ms" using pf by simp
    show ?thesis using Cons.IH[of db] Cons.prems True unfolding eq by simp
  next
    case False
    then have eq: "pending_of (m # ms) = m # pending_of ms" using pf by simp
    from Cons.prems(3) obtain s1 where s1: "run env (Script m) (schema db) = Some s1"
      and rest: "run_all env (map Script (pending_of ms)) s1 = Some sch"
      unfolding eq by (auto split: option.splits)
    let ?db1 = "db\<lparr>changelog := row_of m # changelog db, schema := s1,
                   trace := trace db @ apply_tx m\<rparr>"
    have notin: "Id' m \<notin> set (map row_id (changelog db))"
      using Cons.prems(2) unfolding eq by simp
    have step: "executeSingleMigration env db m = (None, ?db1)"
      using nf s1 notin by (simp add: nf_executeSingleMigration)
    have d: "distinct (map Id' (pending_of ms))"
      using Cons.prems(1) unfolding eq by simp
    have n: "\<forall>x\<in>set (pending_of ms). Id' x \<notin> set (map row_id (changelog ?db1))"
      using Cons.prems(1,2) unfolding eq by (force simp: row_of_def image_iff)
    have r: "run_all env (map Script (pending_of ms)) (schema ?db1) = Some sch"
      using rest by simp
    have "executePending env existing (m # ms) db = executePending env existing ms ?db1"
      using False step by simp
    also have "\<dots> = (None, ?db1\<lparr>changelog := rev (map row_of (pending_of ms)) @ changelog ?db1,
               schema := sch, trace := trace ?db1 @ concat (map apply_tx (pending_of ms))\<rparr>)"
      by (rule Cons.IH[OF d n r pf])
    finally show ?thesis unfolding eq by simp
  qed
qed

lemma nf_executeAll:
  assumes nf: "\<forall>n. \<not> fault env n"
  shows "distinct (map Id' ms) \<Longrightarrow>
   \<forall>m\<in>set ms. Id' m \<notin> set (map row_id (changelog db)) \<Longrightarrow>
   run_all env (map Script ms) (schema db) = Some sch \<Longrightarrow>
   executeAll env ms db =
     (None, db\<lparr>changelog := rev (map row_of ms) @ changelog db, schema := sch,
               trace := trace db @ concat (map legacy_apply_tx ms)\<rparr>)"
proof (induction ms arbitrary: db)
  case Nil
  then show ?case by (cases db) simp
next
  case (Cons m ms)
  from Cons.prems(3) obtain s1 where s1: "run env (Script m) (schema db) = Some s1"
    and rest: "run_all env (map Script ms) s1 = Some sch"
    by (auto split: option.splits)
  let ?db1 = "db\<lparr>changelog := row_of m # changelog db, schema := s1,
                 trace := trace db @ legacy_apply_tx m\<rparr>"
  have notin: "Id' m \<notin> set (map row_id (changelog db))"
    using Cons.prems(2) by simp
  have step: "executeChangeLog env db m = (None, ?db1)"
    using nf s1 notin by (simp add: nf_executeChangeLog)
  have d: "distinct (map Id' ms)"
    using Cons.prems(1) by simp
  have n: "\<forall>x\<in>set ms. Id' x \<notin> set (map row_id (changelog ?db1))"
    using Cons.prems(1,2) by (force simp: row_of_def image_iff)
  have r: "run_all env (map Script ms) (schema ?db1) = Some sch"
    using rest by simp
  have "executeAll env (m # ms) db = executeAll env ms ?db1"
    using step by simp
  also have "\<dots> = (None, ?db1\<lparr>changelog := rev (map row_of ms) @ changelog ?db1,
             schema := sch, trace := trace ?db1 @ concat (map legacy_apply_tx ms)\<rparr>)"
    by (rule Cons.IH[OF d n r])
  finally show ?case by simp
qed


section \<open>Ids that occur more than once\<close>

text \<open>\<open>getMigrations\<close> assigns \<^verbatim>\<open>migrations[v] = migration\<close> for every id of the
  config file; a repeated id reads the same files again and overwrites the entry with an
  equal value.\<close>


lemma set_drop_repeats [simp]: "set (drop_repeats vs) = set vs"
  by (induction vs rule: drop_repeats.induct) auto

lemma distinct_drop_repeats [simp]: "distinct (drop_repeats vs)"
  by (induction vs rule: drop_repeats.induct) auto

lemma getMigrations_loop_skip:
  "extractMigration lib svc v = Inr mig \<Longrightarrow> acc v = Some mig \<Longrightarrow>
   getMigrations_loop lib svc vs acc = getMigrations_loop lib svc (filter (\<lambda>x. x \<noteq> v) vs) acc"
proof (induction vs arbitrary: acc)
  case Nil
  then show ?case by simp
next
  case (Cons x vs)
  show ?case
  proof (cases "x = v")
    case True
    have "acc(v \<mapsto> mig) = acc" using Cons.prems(2) by (rule map_upd_triv)
    then show ?thesis using True Cons by simp
  next
    case False
    show ?thesis
    proof (cases "extractMigration lib svc x")
      case (Inl e)
      then show ?thesis using False by simp
    next
      case (Inr mx)
      have upd: "(acc(x \<mapsto> mx)) v = Some mig" using False Cons.prems(2) by simp
      have "getMigrations_loop lib svc (x # vs) acc =
            getMigrations_loop lib svc vs (acc(x \<mapsto> mx))"
        using Inr by simp
      also have "\<dots> = getMigrations_loop lib svc (filter (\<lambda>x. x \<noteq> v) vs) (acc(x \<mapsto> mx))"
        by (rule Cons.IH[of "acc(x \<mapsto> mx)", OF Cons.prems(1) upd])
      also have "\<dots> = getMigrations_loop lib svc (filter (\<lambda>x. x \<noteq> v) (x # vs)) acc"
        using False Inr by simp
      finally show ?thesis .
    qed
  qed
qed

lemma getMigrations_loop_drop_repeats:
  "getMigrations_loop lib svc vs acc = getMigrations_loop lib svc (drop_repeats vs) acc"
proof (induction vs arbitrary: acc rule: drop_repeats.induct)
  case 1
  then show ?case by simp
next
  case (2 v vs)
  show ?case
  proof (cases "extractMigration lib svc v")
    case (Inl e)
    then show ?thesis by simp
  next
    case (Inr mig)
    have "getMigrations_loop lib svc vs (acc(v \<mapsto> mig)) =
          getMigrations_loop lib svc (filter (\<lambda>x. x \<noteq> v) vs) (acc(v \<mapsto> mig))"
      by (rule getMigrations_loop_skip[OF Inr]) simp
    also have "\<dots> = getMigrations_loop lib svc (drop_repeats (filter (\<lambda>x. x \<noteq> v) vs)) (acc(v \<mapsto> mig))"
      by (rule "2.IH")
    finally show ?thesis using Inr by simp
  qed
qed

lemma getMigrations_loop_char:
  "getMigrations_loop lib svc vs acc = (desired, None) \<Longrightarrow>
   desired k = Some v \<longleftrightarrow>
     (k \<in> set vs \<and> extractMigration lib svc k = Inr v) \<or> (k \<notin> set vs \<and> acc k = Some v)"
proof (induction vs arbitrary: acc)
  case Nil
  then show ?case by simp
next
  case (Cons x vs)
  from Cons.prems obtain mx where e: "extractMigration lib svc x = Inr mx"
    and l: "getMigrations_loop lib svc vs (acc(x \<mapsto> mx)) = (desired, None)"
    by (auto split: sum.splits)
  from Cons.IH[OF l] show ?case using e by auto
qed

lemma getMigrations_char:
  assumes "readConfigFile lib svc = Inr ids" "getMigrations lib svc = (desired, None)"
  shows "desired k = Some v \<longleftrightarrow> k \<in> set ids \<and> extractMigration lib svc k = Inr v"
proof -
  have "getMigrations_loop lib svc ids Map.empty = (desired, None)"
    using assms by (simp add: getMigrations_def)
  from getMigrations_loop_char[OF this] show ?thesis by simp
qed

lemma extractMigration_json_Decode [simp]:
  "extractMigration (lib\<lparr>json_Decode := d\<rparr>) svc v = extractMigration lib svc v"
  by (simp add: extractMigration_def split: sum.splits)

lemma getMigrations_loop_json_Decode [simp]:
  "getMigrations_loop (lib\<lparr>json_Decode := d\<rparr>) svc vs acc = getMigrations_loop lib svc vs acc"
  by (induction vs arbitrary: acc) (auto split: sum.splits)

lemma getMigrations_drop_repeats:
  "getMigrations (lib\<lparr>json_Decode := (\<lambda>f. map_option drop_repeats (json_Decode lib f))\<rparr>) svc =
   getMigrations lib svc"
  using getMigrations_loop_drop_repeats[of lib svc _ Map.empty]
  by (auto simp: getMigrations_def readConfigFile_def split: option.splits)

lemma service_run_drop_repeats:
  "MigrationService_ExecuteMigration
     (lib\<lparr>json_Decode := (\<lambda>f. map_option drop_repeats (json_Decode lib f))\<rparr>) env ks svc db =
   MigrationService_ExecuteMigration lib env ks svc db"
  unfolding MigrationService_ExecuteMigration_def getMigrations_drop_repeats ..

text \<open>The same for the list that \<open>convertMigrationToMap\<close> takes.\<close>

lemma convertMigrationToMap_last:
  "convertMigrationToMap ms k =
     (if filter (\<lambda>m. Id' m = k) ms = [] then None
      else Some (last (filter (\<lambda>m. Id' m = k) ms)))"
  by (cases "filter (\<lambda>m. Id' m = k) ms")
     (simp_all add: convertMigrationToMap_def convertMigrationToMap_loop_last)

lemma convertMigrationToMap_drop_earlier:
  assumes "Id' a = Id' b"
  shows "convertMigrationToMap (xs @ a # ys @ b # zs) = convertMigrationToMap (xs @ ys @ b # zs)"
proof
  fix k
  show "convertMigrationToMap (xs @ a # ys @ b # zs) k = convertMigrationToMap (xs @ ys @ b # zs) k"
    using assms by (simp add: convertMigrationToMap_last)
qed

lemma legacy_run_drop_earlier:
  "Id' a = Id' b \<Longrightarrow>
   ExecuteMigration env ks db (xs @ a # ys @ b # zs) = ExecuteMigration env ks db (xs @ ys @ b # zs)"
  by (simp add: ExecuteMigration_def convertMigrationToMap_drop_earlier)

lemma dom_convertMigrationToMap: "dom (convertMigrationToMap ms) = set (map Id' ms)"
proof -
  have "convertMigrationToMap ms k \<noteq> None \<longleftrightarrow> k \<in> set (map Id' ms)" for k
    by (auto simp: convertMigrationToMap_last filter_empty_conv)
  then show ?thesis by (auto simp: dom_def)
qed

lemma convertMigrationToMap_value_is_last:
  "convertMigrationToMap ms k = Some m \<Longrightarrow>
   filter (\<lambda>x. Id' x = k) ms \<noteq> [] \<and> m = last (filter (\<lambda>x. Id' x = k) ms)"
  by (auto simp: convertMigrationToMap_last split: if_splits)

lemma pending_mem:
  "m \<in> set (pending desired ks rows) \<Longrightarrow> \<exists>k. desired k = Some m"
  using range_values_mem[of m desired ks] by (simp add: pending_def)


section \<open>Checksum drift\<close>

text \<open>
  Claim C1, as the code has it. Let the changelog, newest first, be \<open>us @ ks @ d # rest\<close>:
  entries \<open>us\<close> whose ids are not desired, then kept entries \<open>ks\<close> whose checksums
  agree with the desired ones, then a kept entry \<open>d\<close> whose recorded checksum differs.
  When the ids of the changelog are distinct (\<^verbatim>\<open>id\<close> is the primary key), the driver
  reports no fault and the revert scripts of \<open>us\<close> succeed, the run fails with the
  checksum mismatch of \<open>d\<close>, no migration is applied, and nothing happens
  after the failure; but the entries \<open>us\<close>, newer than every kept entry, have been
  reverted before it, each in its own committed transaction. Both
  \<open>MigrationService_ExecuteMigration\<close> and \<open>ExecuteMigration\<close> of migrate.go behave so.
\<close>

theorem drift_aborts:
  assumes nf: "\<forall>n. \<not> fault env n"
    and cl: "changelog db = us @ ks @ d # rest"
    and dist: "distinct (map row_id (changelog db))"
    and us: "list_all (undesired desired) us"
    and ks: "list_all (kept_unchanged desired) ks"
    and d: "desired (row_id d) = Some m" "Checksum m \<noteq> row_checksum d"
    and rv: "run_all env (map row_revertscript us) (schema db) = Some sch"
  shows "(getMigrations lib svc = (desired, None) \<longrightarrow>
           MigrationService_ExecuteMigration lib env order svc db =
             (Some (ChecksumMismatch (row_id d) (Checksum m) (row_checksum d)),
              db\<lparr>changelog := ks @ d # rest, schema := sch,
                 trace := trace db @ [CreateTable, SelectChangelog] @ concat (map revert_tx us)\<rparr>))
       \<and> (convertMigrationToMap ms = desired \<longrightarrow>
           ExecuteMigration env order db ms =
             (Some LegacyChecksumMismatch,
              db\<lparr>changelog := ks @ d # rest, schema := sch,
                 trace := trace db @ [CreateTable, SelectChangelog]
                            @ concat (map legacy_revert_tx us)\<rparr>))"
proof (intro conjI impI)
  let ?db2 = "db\<lparr>trace := trace db @ [CreateTable, SelectChangelog]\<rparr>"
  have rv2: "run_all env (map row_revertscript us) (schema ?db2) = Some sch"
    using rv by simp
  have flt: "filter (\<lambda>r. row_id r \<notin> set (map row_id us)) (changelog ?db2) = ks @ d # rest"
    using filter_prefix_distinct[of us "ks @ d # rest"] dist cl by simp
  have rows: "map scan_row (changelog db) = map scan_row us @ (map scan_row ks @ scan_row d # map scan_row rest)"
    using cl by simp
  {
    assume gm: "getMigrations lib svc = (desired, None)"
    let ?db3 = "db\<lparr>changelog := ks @ d # rest, schema := sch,
                 trace := trace db @ [CreateTable, SelectChangelog] @ concat (map revert_tx us)\<rparr>"
    have "checkExisting_loop env desired False (map scan_row (changelog db)) ?db2 =
          checkExisting_loop env desired False (map scan_row ks @ scan_row d # map scan_row rest) ?db3"
      unfolding rows using loop_reverts[OF nf us rv2] flt by simp
    also have "\<dots> = checkExisting_loop env desired (False \<or> ks \<noteq> []) (scan_row d # map scan_row rest) ?db3"
      by (rule loop_kept[OF ks])
    also have "\<dots> = (Some (ChecksumMismatch (row_id d) (Checksum m) (row_checksum d)), ?db3)"
      using d by simp
    finally show "MigrationService_ExecuteMigration lib env order svc db =
             (Some (ChecksumMismatch (row_id d) (Checksum m) (row_checksum d)), ?db3)"
      using nf_service[OF nf gm] by simp
  }
  {
    assume cm: "convertMigrationToMap ms = desired"
    let ?db3 = "db\<lparr>changelog := ks @ d # rest, schema := sch,
                 trace := trace db @ [CreateTable, SelectChangelog] @ concat (map legacy_revert_tx us)\<rparr>"
    have dks: "distinct (map row_id ks)" "row_id d \<notin> set (map row_id ks)"
      using dist cl by auto
    have "rows_loop env desired False (map scan_row (changelog db)) ?db2 =
          rows_loop env desired False (map scan_row ks @ scan_row d # map scan_row rest) ?db3"
      unfolding rows using rows_loop_reverts[OF nf us rv2] flt by simp
    also have "\<dots> = rows_loop env (desired |` (- set (map row_id ks))) (False \<or> ks \<noteq> [])
                       (scan_row d # map scan_row rest) ?db3"
      by (rule rows_loop_kept[OF ks dks(1)])
    also have "\<dots> = (Some LegacyChecksumMismatch, desired |` (- set (map row_id ks)), ?db3)"
      using d dks(2) by simp
    finally show "ExecuteMigration env order db ms = (Some LegacyChecksumMismatch, ?db3)"
      using nf_legacy[OF nf, of order db ms] cm by simp
  }
qed

text \<open>The theorem at a changelog with an undesired entry \<^verbatim>\<open>U\<close> above a drifted
  \<^verbatim>\<open>T\<close>.\<close>

theorem drift_aborts_witness:
  "MigrationService_ExecuteMigration (ex_lib [''T'']) ex_env [''T''] ex_svc
     (ex_db [ex_row ''U'', ex_row_drifted ''T'']) =
     (Some (ChecksumMismatch ''T'' (Checksum (ex_migration ''T'')) ''old''),
      \<lparr>changelog = [ex_row_drifted ''T''], schema = [''scripts/U.revert.sql''],
       trace = [CreateTable, SelectChangelog, Begin, Exec ''scripts/U.revert.sql'',
                Delete ''U'', Commit]\<rparr>)
   \<and> ExecuteMigration ex_env [''T''] (ex_db [ex_row ''U'', ex_row_drifted ''T''])
       [ex_migration ''T''] =
     (Some LegacyChecksumMismatch,
      \<lparr>changelog = [ex_row_drifted ''T''], schema = [''scripts/U.revert.sql''],
       trace = [CreateTable, SelectChangelog, Begin, Delete ''U'',
                Exec ''scripts/U.revert.sql'', Commit]\<rparr>)"
proof -
  let ?desired = "[''T'' \<mapsto> ex_migration ''T'']"
  let ?db = "ex_db [ex_row ''U'', ex_row_drifted ''T'']"
  have cl: "changelog ?db = [ex_row ''U''] @ [] @ ex_row_drifted ''T'' # []"
    by (simp add: ex_db_def)
  have dist: "distinct (map row_id (changelog ?db))"
    by (simp add: ex_db_def ex_row_def ex_row_drifted_def)
  have us: "list_all (undesired ?desired) [ex_row ''U'']"
    by (simp add: undesired_def ex_row_def)
  have ks: "list_all (kept_unchanged ?desired) []"
    by simp
  have d1: "?desired (row_id (ex_row_drifted ''T'')) = Some (ex_migration ''T'')"
    by (simp add: ex_row_drifted_def)
  have d2: "Checksum (ex_migration ''T'') \<noteq> row_checksum (ex_row_drifted ''T'')"
    by (simp add: ex_row_drifted_def ex_checksum_not_old)
  have rv: "run_all ex_env (map row_revertscript [ex_row ''U'']) (schema ?db) =
            Some [''scripts/U.revert.sql'']"
    by (simp add: ex_env_run ex_row_def ex_db_def)
  note th = drift_aborts[OF ex_env_nf cl dist us ks d1 d2 rv,
        where lib = "ex_lib [''T'']" and svc = ex_svc and order = "[''T'']"
          and ms = "[ex_migration ''T'']"]
  show ?thesis
    using th[THEN conjunct1, THEN mp, OF ex_getMigrations_T]
          th[THEN conjunct2, THEN mp, OF ex_convert_T]
    by (simp add: ex_db_def revert_tx_def legacy_revert_tx_def ex_row_def ex_row_drifted_def)
qed

text \<open>
  The claim as the specification states it fails on that input: the entry \<^verbatim>\<open>T\<close> is
  kept and drifted, and yet the run has executed the revert script of \<^verbatim>\<open>U\<close> and
  deleted its row when it reports the mismatch.
\<close>

theorem drift_reverts_first_counterexample:
  "kept_drifted (convertMigrationToMap [ex_migration ''T'']) (ex_row_drifted ''T'')
   \<and> fst (getMigrations (ex_lib [''T'']) ex_svc) = convertMigrationToMap [ex_migration ''T'']
   \<and> changelog (ex_db [ex_row ''U'', ex_row_drifted ''T'']) = [ex_row ''U'', ex_row_drifted ''T'']
   \<and> changelog (snd (MigrationService_ExecuteMigration (ex_lib [''T'']) ex_env [''T'']
         ex_svc (ex_db [ex_row ''U'', ex_row_drifted ''T'']))) = [ex_row_drifted ''T'']
   \<and> executed_scripts (trace (snd (MigrationService_ExecuteMigration (ex_lib [''T''])
         ex_env [''T''] ex_svc (ex_db [ex_row ''U'', ex_row_drifted ''T''])))) =
         [''scripts/U.revert.sql'']
   \<and> changelog (snd (ExecuteMigration ex_env [''T'']
         (ex_db [ex_row ''U'', ex_row_drifted ''T'']) [ex_migration ''T''])) =
         [ex_row_drifted ''T'']
   \<and> executed_scripts (trace (snd (ExecuteMigration ex_env [''T'']
         (ex_db [ex_row ''U'', ex_row_drifted ''T'']) [ex_migration ''T'']))) =
         [''scripts/U.revert.sql'']"
  unfolding ex_drift_service ex_drift_legacy ex_getMigrations_T ex_convert_T
  by (simp add: kept_drifted_def ex_row_drifted_def ex_checksum_not_old ex_db_def)

section \<open>An undesired entry below a kept one\<close>

text \<open>
  Claim C2, as the code has it. Let the changelog, newest first, be
  \<open>us @ k # ks @ u # rest\<close>: entries \<open>us\<close> whose ids are not desired, then kept entries
  \<open>k # ks\<close> with the desired checksums, then an entry \<open>u\<close> that is not desired. When
  the ids of the changelog are distinct (\<^verbatim>\<open>id\<close> is the primary key), the driver
  reports no fault and the revert scripts of \<open>us\<close> succeed, the run fails with
  the error of the non-revertible order, no migration is applied, and every entry from
  the newest kept one downwards is left as it was; but the entries \<open>us\<close>, newer than
  every kept entry, have been reverted before the failure. With no such entry
  (\<open>us = []\<close>) the changelog is left unmodified.
\<close>

theorem undesired_below_kept_aborts:
  assumes nf: "\<forall>n. \<not> fault env n"
    and cl: "changelog db = us @ k # ks @ u # rest"
    and dist: "distinct (map row_id (changelog db))"
    and us: "list_all (undesired desired) us"
    and ks: "list_all (kept_unchanged desired) (k # ks)"
    and u: "undesired desired u"
    and rv: "run_all env (map row_revertscript us) (schema db) = Some sch"
  shows "(getMigrations lib svc = (desired, None) \<longrightarrow>
           MigrationService_ExecuteMigration lib env order svc db =
             (Some NotRevertable,
              db\<lparr>changelog := k # ks @ u # rest, schema := sch,
                 trace := trace db @ [CreateTable, SelectChangelog] @ concat (map revert_tx us)\<rparr>))
       \<and> (convertMigrationToMap ms = desired \<longrightarrow>
           ExecuteMigration env order db ms =
             (Some LegacyNotRevertedable,
              db\<lparr>changelog := k # ks @ u # rest, schema := sch,
                 trace := trace db @ [CreateTable, SelectChangelog]
                            @ concat (map legacy_revert_tx us)\<rparr>))"
proof (intro conjI impI)
  let ?db2 = "db\<lparr>trace := trace db @ [CreateTable, SelectChangelog]\<rparr>"
  have rv2: "run_all env (map row_revertscript us) (schema ?db2) = Some sch"
    using rv by simp
  have flt: "filter (\<lambda>r. row_id r \<notin> set (map row_id us)) (changelog ?db2) = k # ks @ u # rest"
    using filter_prefix_distinct[of us "k # ks @ u # rest"] dist cl by simp
  have rows: "map scan_row (changelog db) =
        map scan_row us @ (map scan_row (k # ks) @ scan_row u # map scan_row rest)"
    using cl by simp
  have u': "desired (row_id u) = None"
    using u by (simp add: undesired_def)
  {
    assume gm: "getMigrations lib svc = (desired, None)"
    let ?db3 = "db\<lparr>changelog := k # ks @ u # rest, schema := sch,
                 trace := trace db @ [CreateTable, SelectChangelog] @ concat (map revert_tx us)\<rparr>"
    have "checkExisting_loop env desired False (map scan_row (changelog db)) ?db2 =
          checkExisting_loop env desired False
            (map scan_row (k # ks) @ scan_row u # map scan_row rest) ?db3"
      unfolding rows using loop_reverts[OF nf us rv2] flt by simp
    also have "\<dots> = checkExisting_loop env desired (False \<or> k # ks \<noteq> [])
                        (scan_row u # map scan_row rest) ?db3"
      by (rule loop_kept[OF ks])
    also have "\<dots> = (Some NotRevertable, ?db3)"
      using u' by simp
    finally show "MigrationService_ExecuteMigration lib env order svc db =
             (Some NotRevertable, ?db3)"
      using nf_service[OF nf gm] by simp
  }
  {
    assume cm: "convertMigrationToMap ms = desired"
    let ?db3 = "db\<lparr>changelog := k # ks @ u # rest, schema := sch,
                 trace := trace db @ [CreateTable, SelectChangelog] @ concat (map legacy_revert_tx us)\<rparr>"
    have dks: "distinct (map row_id (k # ks))"
      using dist cl by auto
    have "rows_loop env desired False (map scan_row (changelog db)) ?db2 =
          rows_loop env desired False
            (map scan_row (k # ks) @ scan_row u # map scan_row rest) ?db3"
      unfolding rows using rows_loop_reverts[OF nf us rv2] flt by simp
    also have "\<dots> = rows_loop env (desired |` (- set (map row_id (k # ks)))) (False \<or> k # ks \<noteq> [])
                       (scan_row u # map scan_row rest) ?db3"
      by (rule rows_loop_kept[OF ks dks])
    also have "\<dots> = (Some LegacyNotRevertedable, desired |` (- set (map row_id (k # ks))), ?db3)"
      using u' by (simp add: restrict_map_def)
    finally show "ExecuteMigration env order db ms = (Some LegacyNotRevertedable, ?db3)"
      using nf_legacy[OF nf, of order db ms] cm by simp
  }
qed


text \<open>The theorem at the changelog \<^verbatim>\<open>U\<close>, \<^verbatim>\<open>T\<close>, \<^verbatim>\<open>V\<close> with only \<^verbatim>\<open>T\<close>
  desired.\<close>

theorem undesired_below_kept_aborts_witness:
  "MigrationService_ExecuteMigration (ex_lib [''T'']) ex_env [''T''] ex_svc
     (ex_db [ex_row ''U'', ex_row ''T'', ex_row ''V'']) =
     (Some NotRevertable,
      \<lparr>changelog = [ex_row ''T'', ex_row ''V''], schema = [''scripts/U.revert.sql''],
       trace = [CreateTable, SelectChangelog, Begin, Exec ''scripts/U.revert.sql'',
                Delete ''U'', Commit]\<rparr>)
   \<and> ExecuteMigration ex_env [''T''] (ex_db [ex_row ''U'', ex_row ''T'', ex_row ''V''])
       [ex_migration ''T''] =
     (Some LegacyNotRevertedable,
      \<lparr>changelog = [ex_row ''T'', ex_row ''V''], schema = [''scripts/U.revert.sql''],
       trace = [CreateTable, SelectChangelog, Begin, Delete ''U'',
                Exec ''scripts/U.revert.sql'', Commit]\<rparr>)"
proof -
  let ?desired = "[''T'' \<mapsto> ex_migration ''T'']"
  let ?db = "ex_db [ex_row ''U'', ex_row ''T'', ex_row ''V'']"
  have cl: "changelog ?db = [ex_row ''U''] @ ex_row ''T'' # [] @ ex_row ''V'' # []"
    by (simp add: ex_db_def)
  have dist: "distinct (map row_id (changelog ?db))"
    by (simp add: ex_db_def)
  have us: "list_all (undesired ?desired) [ex_row ''U'']"
    by (simp add: undesired_def)
  have ks: "list_all (kept_unchanged ?desired) [ex_row ''T'']"
    by (simp add: kept_unchanged_def)
  have u: "undesired ?desired (ex_row ''V'')"
    by (simp add: undesired_def)
  have rv: "run_all ex_env (map row_revertscript [ex_row ''U'']) (schema ?db) =
            Some [''scripts/U.revert.sql'']"
    by (simp add: ex_env_run ex_db_def)
  note th = undesired_below_kept_aborts[OF ex_env_nf cl dist us ks u rv,
        where lib = "ex_lib [''T'']" and svc = ex_svc and order = "[''T'']"
          and ms = "[ex_migration ''T'']"]
  show ?thesis
    using th[THEN conjunct1, THEN mp, OF ex_getMigrations_T]
          th[THEN conjunct2, THEN mp, OF ex_convert_T]
    by (simp add: ex_db_def revert_tx_def legacy_revert_tx_def)
qed


text \<open>
  The claim as the specification states it fails on that input: \<^verbatim>\<open>V\<close> is undesired and
  older than the kept \<^verbatim>\<open>T\<close>, the run fails with the error of the non-revertible order,
  and the changelog has lost the row of \<^verbatim>\<open>U\<close>.
\<close>

theorem changelog_modified_counterexample:
  "undesired (convertMigrationToMap [ex_migration ''T'']) (ex_row ''V'')
   \<and> kept_unchanged (convertMigrationToMap [ex_migration ''T'']) (ex_row ''T'')
   \<and> fst (getMigrations (ex_lib [''T'']) ex_svc) = convertMigrationToMap [ex_migration ''T'']
   \<and> changelog (ex_db [ex_row ''U'', ex_row ''T'', ex_row ''V'']) =
       [ex_row ''U'', ex_row ''T'', ex_row ''V'']
   \<and> fst (MigrationService_ExecuteMigration (ex_lib [''T'']) ex_env [''T'']
         ex_svc (ex_db [ex_row ''U'', ex_row ''T'', ex_row ''V''])) = Some NotRevertable
   \<and> changelog (snd (MigrationService_ExecuteMigration (ex_lib [''T'']) ex_env [''T'']
         ex_svc (ex_db [ex_row ''U'', ex_row ''T'', ex_row ''V'']))) =
       [ex_row ''T'', ex_row ''V'']
   \<and> fst (ExecuteMigration ex_env [''T'']
         (ex_db [ex_row ''U'', ex_row ''T'', ex_row ''V'']) [ex_migration ''T'']) =
       Some LegacyNotRevertedable
   \<and> changelog (snd (ExecuteMigration ex_env [''T'']
         (ex_db [ex_row ''U'', ex_row ''T'', ex_row ''V'']) [ex_migration ''T''])) =
       [ex_row ''T'', ex_row ''V'']"
  unfolding ex_order_service ex_order_legacy ex_getMigrations_T ex_convert_T
  by (simp add: undesired_def kept_unchanged_def ex_db_def)

section \<open>An empty desired set\<close>

text \<open>
  Claim C10. When no migration is desired, the driver reports no fault and the revert
  scripts of the changelog succeed one after the other, the run reverts every recorded
  entry, the newest first, each in its own transaction, and succeeds; the changelog is
  empty afterwards and nothing is applied. This holds for \<open>MigrationService_ExecuteMigration\<close>
  and for \<open>ExecuteMigration\<close> of migrate.go, which differ only in the order of the two
  statements inside a transaction.
\<close>

theorem empty_desired_reverts_all:
  assumes nf: "\<forall>n. \<not> fault env n"
    and rv: "run_all env (map row_revertscript (changelog db)) (schema db) = Some sch"
  shows "(getMigrations lib svc = (Map.empty, None) \<longrightarrow>
           MigrationService_ExecuteMigration lib env order svc db =
             (None, db\<lparr>changelog := [], schema := sch,
                      trace := trace db @ [CreateTable, SelectChangelog]
                                 @ concat (map revert_tx (changelog db))\<rparr>))
       \<and> ExecuteMigration env order db [] =
             (None, db\<lparr>changelog := [], schema := sch,
                      trace := trace db @ [CreateTable, SelectChangelog]
                                 @ concat (map legacy_revert_tx (changelog db))\<rparr>)"
proof (intro conjI impI)
  let ?db2 = "db\<lparr>trace := trace db @ [CreateTable, SelectChangelog]\<rparr>"
  have rv2: "run_all env (map row_revertscript (changelog db)) (schema ?db2) = Some sch"
    using rv by simp
  have us: "list_all (undesired Map.empty) (changelog db)"
    by (simp add: undesired_def list_all_iff)
  have flt: "filter (\<lambda>r. row_id r \<notin> set (map row_id (changelog db))) (changelog ?db2) = []"
    by (simp add: filter_empty_conv)
  {
    assume gm: "getMigrations lib svc = (Map.empty, None)"
    have "checkExisting_loop env Map.empty False (map scan_row (changelog db)) ?db2 =
          (None, db\<lparr>changelog := [], schema := sch,
                      trace := trace db @ [CreateTable, SelectChangelog]
                                 @ concat (map revert_tx (changelog db))\<rparr>)"
      using loop_reverts[OF nf us rv2, of "[]"] flt by simp
    then show "MigrationService_ExecuteMigration lib env order svc db =
             (None, db\<lparr>changelog := [], schema := sch,
                      trace := trace db @ [CreateTable, SelectChangelog]
                                 @ concat (map revert_tx (changelog db))\<rparr>)"
      using nf_service[OF nf gm] by simp
  }
  have "rows_loop env Map.empty False (map scan_row (changelog db)) ?db2 =
          (None, Map.empty, db\<lparr>changelog := [], schema := sch,
                      trace := trace db @ [CreateTable, SelectChangelog]
                                 @ concat (map legacy_revert_tx (changelog db))\<rparr>)"
    using rows_loop_reverts[OF nf us rv2, of "[]"] flt by simp
  then show "ExecuteMigration env order db [] =
             (None, db\<lparr>changelog := [], schema := sch,
                      trace := trace db @ [CreateTable, SelectChangelog]
                                 @ concat (map legacy_revert_tx (changelog db))\<rparr>)"
    using nf_legacy[OF nf, of order db "[]"] by simp
qed


text \<open>The theorem at a changelog of two entries.\<close>

theorem empty_desired_reverts_all_witness:
  "MigrationService_ExecuteMigration (ex_lib []) ex_env [] ex_svc
     (ex_db [ex_row ''U'', ex_row ''T'']) =
     (None,
      \<lparr>changelog = [], schema = [''scripts/U.revert.sql'', ''scripts/T.revert.sql''],
       trace = [CreateTable, SelectChangelog,
                Begin, Exec ''scripts/U.revert.sql'', Delete ''U'', Commit,
                Begin, Exec ''scripts/T.revert.sql'', Delete ''T'', Commit]\<rparr>)
   \<and> ExecuteMigration ex_env [] (ex_db [ex_row ''U'', ex_row ''T'']) [] =
     (None,
      \<lparr>changelog = [], schema = [''scripts/U.revert.sql'', ''scripts/T.revert.sql''],
       trace = [CreateTable, SelectChangelog,
                Begin, Delete ''U'', Exec ''scripts/U.revert.sql'', Commit,
                Begin, Delete ''T'', Exec ''scripts/T.revert.sql'', Commit]\<rparr>)"
proof -
  let ?db = "ex_db [ex_row ''U'', ex_row ''T'']"
  have rv: "run_all ex_env (map row_revertscript (changelog ?db)) (schema ?db) =
            Some [''scripts/U.revert.sql'', ''scripts/T.revert.sql'']"
    by (simp add: ex_env_run ex_db_def)
  note th = empty_desired_reverts_all[OF ex_env_nf rv,
        where lib = "ex_lib []" and svc = ex_svc and order = "[]"]
  show ?thesis
    using th[THEN conjunct1, THEN mp, OF ex_getMigrations_Nil] th[THEN conjunct2]
    by (simp add: ex_db_def revert_tx_def legacy_revert_tx_def)
qed

section \<open>Applying one migration\<close>

text \<open>
  Claim C5, as the code has it. Applying one migration is atomic in both files, whatever
  the script does and whichever calls the driver fails: when the function returns no
  error, the schema is the result of the forward script and the changelog has the new
  row on top; when it returns an error (or panics), the committed schema and changelog
  are what they were. A successful \<open>executeSingleMigration\<close> runs the script and then
  inserts the row; a successful \<open>executeChangeLog\<close> of migrate.go inserts the row and
  then runs the script.
\<close>

theorem apply_is_atomic:
  "(case executeSingleMigration env db m of
      (None, db') \<Rightarrow>
        run env (Script m) (schema db) = Some (schema db') \<and>
        changelog db' = row_of m # changelog db \<and>
        new_trace db db' = apply_tx m
    | (Some e, db') \<Rightarrow> schema db' = schema db \<and> changelog db' = changelog db)
   \<and> (case executeChangeLog env db m of
      (None, db') \<Rightarrow>
        run env (Script m) (schema db) = Some (schema db') \<and>
        changelog db' = row_of m # changelog db \<and>
        new_trace db db' = legacy_apply_tx m
    | (Some e, db') \<Rightarrow> schema db' = schema db \<and> changelog db' = changelog db)"
proof
  obtain r db' where a: "executeSingleMigration env db m = (r, db')"
    by (cases "executeSingleMigration env db m")
  show "case executeSingleMigration env db m of
      (None, db') \<Rightarrow>
        run env (Script m) (schema db) = Some (schema db') \<and>
        changelog db' = row_of m # changelog db \<and>
        new_trace db db' = apply_tx m
    | (Some e, db') \<Rightarrow> schema db' = schema db \<and> changelog db' = changelog db"
    using executeSingleMigration_result[OF a] a by (cases r) simp_all
  obtain r2 db2 where b: "executeChangeLog env db m = (r2, db2)"
    by (cases "executeChangeLog env db m")
  show "case executeChangeLog env db m of
      (None, db') \<Rightarrow>
        run env (Script m) (schema db) = Some (schema db') \<and>
        changelog db' = row_of m # changelog db \<and>
        new_trace db db' = legacy_apply_tx m
    | (Some e, db') \<Rightarrow> schema db' = schema db \<and> changelog db' = changelog db"
    using executeChangeLog_result[OF b] b by (cases r2) simp_all
qed


text \<open>The theorem at the first migration of an empty database.\<close>

theorem apply_is_atomic_witness:
  "new_trace (ex_db []) (snd (executeSingleMigration ex_env (ex_db []) (ex_migration ''T''))) =
     apply_tx (ex_migration ''T'')
   \<and> changelog (snd (executeSingleMigration ex_env (ex_db []) (ex_migration ''T''))) =
       [row_of (ex_migration ''T'')]
   \<and> new_trace (ex_db []) (snd (executeChangeLog ex_env (ex_db []) (ex_migration ''T''))) =
     legacy_apply_tx (ex_migration ''T'')
   \<and> changelog (snd (executeChangeLog ex_env (ex_db []) (ex_migration ''T''))) =
       [row_of (ex_migration ''T'')]"
  using apply_is_atomic[where env = ex_env and db = "ex_db []" and m = "ex_migration ''T''"]
  unfolding ex_apply_legacy ex_apply_service
  by (simp add: ex_db_def)


text \<open>The order that the claim states (script, then row) is not the order of
  \<open>executeChangeLog\<close> in migrate.go, which sends the \<^verbatim>\<open>INSERT\<close> first.\<close>

theorem legacy_inserts_before_script_counterexample:
  "fst (executeChangeLog ex_env (ex_db []) (ex_migration ''T'')) = None
   \<and> trace (snd (executeChangeLog ex_env (ex_db []) (ex_migration ''T''))) =
       [Begin, Insert ''T'' (Checksum (ex_migration ''T'')) ''scripts/T.revert.sql'',
        Exec ''scripts/T.sql'', Commit]"
  by (simp add: ex_apply_legacy)

section \<open>A revert that fails\<close>

text \<open>
  Claim C3 says that a failed revert ends the run with its error. \<open>checkExistingChangelogs\<close>
  does so (\<open>service_revert_failure_propagates\<close>). \<open>ExecuteMigration\<close> of migrate.go
  drops the result of \<open>revertScript\<close>: with the changelog \<^verbatim>\<open>U\<close>, \<^verbatim>\<open>V\<close>, the revert
  script of \<^verbatim>\<open>U\<close> failing, and \<^verbatim>\<open>T\<close> desired, the run goes on to revert the older
  \<^verbatim>\<open>V\<close>, applies \<^verbatim>\<open>T\<close> and returns no error, while the row of \<^verbatim>\<open>U\<close> is still
  there.
\<close>

theorem legacy_ignores_failed_revert:
  "ExecuteMigration ex_env [''T''] (ex_db [ex_row_failing ''U'', ex_row ''V''])
     [ex_migration ''T''] =
     (None,
      \<lparr>changelog = [ex_row ''T'', ex_row_failing ''U''],
       schema = [''scripts/V.revert.sql'', ''scripts/T.sql''],
       trace = [CreateTable, SelectChangelog,
                Begin, Delete ''U'', Exec ''FAIL'',
                Begin, Delete ''V'', Exec ''scripts/V.revert.sql'', Commit,
                Begin, Insert ''T'' (Checksum (ex_migration ''T'')) ''scripts/T.revert.sql'',
                Exec ''scripts/T.sql'', Commit]\<rparr>)"
  by (simp add: nf_legacy[OF ex_env_nf] ex_convert_T ex_db_def
        nf_revertScript[OF ex_env_nf] nf_executeChangeLog[OF ex_env_nf] ex_env_run
        row_of_def ex_row_def legacy_apply_tx_def ex_row_failing_def)


section \<open>The order of the pending migrations\<close>

text \<open>
  Claim C4, as the code has it. Both files range over a Go map to apply the pending
  migrations, and the order \<open>ks\<close> of that loop is the runtime's choice. Let the changelog
  hold only kept entries with the desired checksums, let the driver report no fault, and
  let the scripts of the pending migrations succeed one after the other in the order
  \<open>ks\<close>. Then the run applies the pending migrations one by one, each in its own
  committed transaction, in the order \<open>ks\<close>: for every order that the runtime may choose,
  that order is the order of application. The order of declaration plays no part.
\<close>

theorem pending_applied_in_map_order:
  assumes nf: "\<forall>n. \<not> fault env n"
    and kept: "list_all (kept_unchanged desired) (changelog db)"
    and dist: "distinct (map row_id (changelog db))"
    and ok: "run_all env (map Script (pending desired ks (changelog db))) (schema db) = Some sch"
  shows "(getMigrations lib svc = (desired, None) \<and> range_order desired ks \<longrightarrow>
           map Id' (pending desired ks (changelog db)) =
             [k \<leftarrow> ks. k \<notin> set (map row_id (changelog db))] \<and>
           MigrationService_ExecuteMigration lib env ks svc db =
             (None, db\<lparr>changelog := rev (map row_of (pending desired ks (changelog db)))
                                       @ changelog db,
                        schema := sch,
                        trace := trace db @ [CreateTable, SelectChangelog]
                          @ concat (map apply_tx (pending desired ks (changelog db)))\<rparr>))
       \<and> (convertMigrationToMap ms = desired \<and>
            range_order (desired |` (- set (map row_id (changelog db)))) ks \<longrightarrow>
           map Id' (pending desired ks (changelog db)) = ks \<and>
           ExecuteMigration env ks db ms =
             (None, db\<lparr>changelog := rev (map row_of (pending desired ks (changelog db)))
                                       @ changelog db,
                        schema := sch,
                        trace := trace db @ [CreateTable, SelectChangelog]
                          @ concat (map legacy_apply_tx (pending desired ks (changelog db)))\<rparr>))"
proof (intro conjI impI)
  let ?ids = "set (map row_id (changelog db))"
  let ?p = "pending desired ks (changelog db)"
  let ?db2 = "db\<lparr>trace := trace db @ [CreateTable, SelectChangelog]\<rparr>"
  have ok2: "run_all env (map Script ?p) (schema ?db2) = Some sch" using ok by simp
  have nin: "\<forall>m\<in>set ?p. Id' m \<notin> set (map row_id (changelog ?db2))"
    by (simp add: pending_def)
  {
    assume a: "getMigrations lib svc = (desired, None) \<and> range_order desired ks"
    have key: "\<forall>k v. desired k = Some v \<longrightarrow> Id' v = k"
      using a getMigrations_key by blast
    have "map Id' ?p = [k \<leftarrow> map Id' (range_values desired ks). k \<notin> ?ids]"
      by (simp add: pending_def filter_map comp_def)
    then show ids: "map Id' ?p = [k \<leftarrow> ks. k \<notin> ?ids]"
      using range_values_range_order[OF key] a by simp
    have dp: "distinct (map Id' ?p)"
      using pending_service[OF key, of ks ?ids] a by (simp add: pending_def)
    have w: "checkExisting_loop env desired False (map scan_row (changelog db)) ?db2 = (None, ?db2)"
      using loop_kept[OF kept, of env False "[]" ?db2] by simp
    have p: "executePending env (map scan_row (changelog db)) (range_values desired ks) ?db2 =
        (None, ?db2\<lparr>changelog := rev (map row_of ?p) @ changelog ?db2, schema := sch,
               trace := trace ?db2 @ concat (map apply_tx ?p)\<rparr>)"
      using nf_executePending[OF nf, where existing = "map scan_row (changelog db)"
          and pending_of = "filter (\<lambda>m. \<not> list_ex (\<lambda>e. Id' e = Id' m) (map scan_row (changelog db)))"
          and ms = "range_values desired ks" and db = ?db2 and sch = sch]
        dp nin ok2
      by (simp add: pending_def list_ex_scan_row)
    show "MigrationService_ExecuteMigration lib env ks svc db =
             (None, db\<lparr>changelog := rev (map row_of ?p) @ changelog db, schema := sch,
                        trace := trace db @ [CreateTable, SelectChangelog]
                          @ concat (map apply_tx ?p)\<rparr>)"
      using nf_service[OF nf, of lib svc desired ks db] a w p by simp
  }
  {
    assume a: "convertMigrationToMap ms = desired \<and> range_order (desired |` (- ?ids)) ks"
    have key: "\<forall>k v. desired k = Some v \<longrightarrow> Id' v = k"
      using a convertMigrationToMap_key by blast
    have rp: "range_values (desired |` (- ?ids)) ks = ?p"
      using range_values_restrict[OF key, of ?ids ks] by (simp add: pending_def)
    have key': "\<forall>k v. (desired |` (- ?ids)) k = Some v \<longrightarrow> Id' v = k"
      using key by (auto simp: restrict_map_def split: if_splits)
    have ro: "range_order (desired |` (- ?ids)) ks" using a by simp
    have "map Id' (range_values (desired |` (- ?ids)) ks) = ks"
      by (rule range_values_range_order[OF key' ro])
    then show ids: "map Id' ?p = ks" unfolding rp .
    have dp: "distinct (map Id' ?p)"
      using pending_legacy[OF key, of ?ids ks] a rp by simp
    have w: "rows_loop env desired False (map scan_row (changelog db)) ?db2 =
             (None, desired |` (- ?ids), ?db2)"
      using rows_loop_kept[OF kept dist, of env False "[]" ?db2] by simp
    have p: "executeAll env ?p ?db2 =
        (None, ?db2\<lparr>changelog := rev (map row_of ?p) @ changelog ?db2, schema := sch,
               trace := trace ?db2 @ concat (map legacy_apply_tx ?p)\<rparr>)"
      by (rule nf_executeAll[OF nf dp nin ok2])
    show "ExecuteMigration env ks db ms =
             (None, db\<lparr>changelog := rev (map row_of ?p) @ changelog db, schema := sch,
                        trace := trace db @ [CreateTable, SelectChangelog]
                          @ concat (map legacy_apply_tx ?p)\<rparr>)"
      using nf_legacy[OF nf, of ks db ms] a w p rp by simp
  }
qed

text \<open>The theorem for the desired list \<^verbatim>\<open>A\<close>, \<^verbatim>\<open>B\<close>, an empty changelog and the
  order \<^verbatim>\<open>B\<close>, \<^verbatim>\<open>A\<close> of the map.\<close>

theorem pending_applied_in_map_order_witness:
  "map Id' (pending (fst (getMigrations (ex_lib [''A'', ''B'']) ex_svc)) [''B'', ''A'']
       (changelog (ex_db []))) = [''B'', ''A'']
   \<and> MigrationService_ExecuteMigration (ex_lib [''A'', ''B'']) ex_env [''B'', ''A''] ex_svc
       (ex_db []) =
     (None,
      \<lparr>changelog = [row_of (ex_migration ''A''), row_of (ex_migration ''B'')],
       schema = [''scripts/B.sql'', ''scripts/A.sql''],
       trace = [CreateTable, SelectChangelog] @ apply_tx (ex_migration ''B'')
                 @ apply_tx (ex_migration ''A'')\<rparr>)
   \<and> ExecuteMigration ex_env [''B'', ''A''] (ex_db [])
       [ex_migration ''A'', ex_migration ''B''] =
     (None,
      \<lparr>changelog = [row_of (ex_migration ''A''), row_of (ex_migration ''B'')],
       schema = [''scripts/B.sql'', ''scripts/A.sql''],
       trace = [CreateTable, SelectChangelog] @ legacy_apply_tx (ex_migration ''B'')
                 @ legacy_apply_tx (ex_migration ''A'')\<rparr>)"
proof -
  let ?desired = "[''A'' \<mapsto> ex_migration ''A'', ''B'' \<mapsto> ex_migration ''B'']"
  let ?db = "ex_db []"
  have kept: "list_all (kept_unchanged ?desired) (changelog ?db)"
    by (simp add: ex_db_def)
  have dist: "distinct (map row_id (changelog ?db))"
    by (simp add: ex_db_def)
  have ok: "run_all ex_env (map Script (pending ?desired [''B'', ''A''] (changelog ?db)))
              (schema ?db) = Some [''scripts/B.sql'', ''scripts/A.sql'']"
    unfolding ex_pending_BA by (simp add: ex_env_run ex_db_def)
  have ro: "range_order ?desired [''B'', ''A'']"
    by (auto simp: range_order_def)
  have ro2: "range_order (?desired |` (- set (map row_id (changelog ?db)))) [''B'', ''A'']"
    by (auto simp: range_order_def ex_db_def)
  note th = pending_applied_in_map_order[OF ex_env_nf kept dist ok,
      where lib = "ex_lib [''A'', ''B'']" and svc = ex_svc
      and ms = "[ex_migration ''A'', ex_migration ''B'']"]
  note s = th[THEN conjunct1, THEN mp, OF conjI[OF ex_getMigrations_AB ro]]
  note l = th[THEN conjunct2, THEN mp, OF conjI[OF ex_convert_AB ro2]]
  show ?thesis
    using s l unfolding ex_pending_BA ex_getMigrations_AB
    by (simp add: ex_db_def pending_def)
qed


text \<open>
  The claim as the specification states it fails there: the list declares \<^verbatim>\<open>A\<close> before
  \<^verbatim>\<open>B\<close>, \<^verbatim>\<open>B\<close>, \<^verbatim>\<open>A\<close> is an order of the map, and in that run the script of
  \<^verbatim>\<open>B\<close> is executed before the script of \<^verbatim>\<open>A\<close>.
\<close>

theorem declared_order_not_kept_counterexample:
  "map Id' [ex_migration ''A'', ex_migration ''B''] = [''A'', ''B'']
   \<and> range_order (convertMigrationToMap [ex_migration ''A'', ex_migration ''B'']) [''B'', ''A'']
   \<and> fst (ExecuteMigration ex_env [''B'', ''A''] (ex_db [])
            [ex_migration ''A'', ex_migration ''B'']) = None
   \<and> executed_scripts (trace (snd (ExecuteMigration ex_env [''B'', ''A''] (ex_db [])
            [ex_migration ''A'', ex_migration ''B'']))) = [''scripts/B.sql'', ''scripts/A.sql'']
   \<and> fst (getMigrations (ex_lib [''A'', ''B'']) ex_svc) =
       convertMigrationToMap [ex_migration ''A'', ex_migration ''B'']
   \<and> fst (MigrationService_ExecuteMigration (ex_lib [''A'', ''B'']) ex_env [''B'', ''A'']
            ex_svc (ex_db [])) = None
   \<and> executed_scripts (trace (snd (MigrationService_ExecuteMigration (ex_lib [''A'', ''B''])
            ex_env [''B'', ''A''] ex_svc (ex_db [])))) = [''scripts/B.sql'', ''scripts/A.sql'']"
  unfolding ex_run_service_BA ex_run_legacy_BA ex_getMigrations_AB ex_convert_AB
  by (auto simp: range_order_def)

section \<open>Duplicate identifiers\<close>

text \<open>
  Claim C9. Both implementations put the desired migrations into a map from id to
  migration and report no error for an id that occurs twice.

  \<^item> \<open>convertMigrationToMap\<close> maps an id to the last migration of the list that has this id
    (and to nothing when there is none), so the values of the map have distinct ids.
  \<^item> A run of \<open>ExecuteMigration\<close> on a list in which \<open>a\<close> is followed, later, by a
    migration \<open>b\<close> of the same id is the run on the list without \<open>a\<close>: same result, error
    or not, same database, same statements.
  \<^item> In every run of \<open>ExecuteMigration\<close>, whatever fails, no id is inserted twice, the
    inserted ids are ids of the list that the changelog did not hold, the pending migrations
    are one per such id, each of them the last of the list with its id, and the statements
    of the apply phase are those of a prefix of the pending migrations, of all of them when
    the run returns no error.
  \<^item> A run of \<open>MigrationService.ExecuteMigration\<close> on a config file is the run on the config
    file without its repetitions: same result, error or not, same database.
  \<^item> When \<open>getMigrations\<close> succeeds, its map holds exactly the ids of the config file, each
    with the migration that \<open>extractMigration\<close> builds for it; in every run of the service
    no id is inserted twice and the apply phase is as above, with that one migration per id.
\<close>

theorem duplicate_id_last_wins:
  "convertMigrationToMap ms k =
     (case filter (\<lambda>m. Id' m = k) ms of [] \<Rightarrow> None | y # ys \<Rightarrow> Some (last (y # ys)))
   \<and> (distinct ks \<longrightarrow> distinct (map Id' (range_values (convertMigrationToMap ms) ks)))
   \<and> (distinct ks \<and> getMigrations lib svc = (desired, None) \<longrightarrow>
         distinct (map Id' (range_values desired ks)))
   \<and> (Id' a = Id' b \<longrightarrow>
         ExecuteMigration env ks db (xs @ a # ys @ b # zs) =
         ExecuteMigration env ks db (xs @ ys @ b # zs))
   \<and> (range_order (convertMigrationToMap ms |` (- set (map row_id (changelog db)))) ksl \<and>
      ExecuteMigration env ksl db ms = (rl, dbl) \<longrightarrow>
        distinct (inserted_ids (new_trace db dbl)) \<and>
        set (inserted_ids (new_trace db dbl)) \<subseteq>
          set (map Id' ms) - set (map row_id (changelog db)) \<and>
        distinct (map Id' (pending (convertMigrationToMap ms) ksl (changelog db))) \<and>
        set (map Id' (pending (convertMigrationToMap ms) ksl (changelog db))) =
          set (map Id' ms) - set (map row_id (changelog db)) \<and>
        (\<forall>m\<in>set (pending (convertMigrationToMap ms) ksl (changelog db)).
           filter (\<lambda>x. Id' x = Id' m) ms \<noteq> [] \<and>
           m = last (filter (\<lambda>x. Id' x = Id' m) ms)) \<and>
        (\<exists>t_walk t_apply.
           new_trace db dbl = t_walk @ t_apply \<and> inserted_ids t_walk = [] \<and>
           set (executed_scripts t_walk) \<subseteq> set (map row_revertscript (changelog db)) \<and>
           (\<exists>n. inserted_ids t_apply =
                  take n (map Id' (pending (convertMigrationToMap ms) ksl (changelog db)))) \<and>
           (\<exists>n. executed_scripts t_apply =
                  take n (map Script (pending (convertMigrationToMap ms) ksl (changelog db)))) \<and>
           (rl = None \<longrightarrow>
              t_apply = concat (map legacy_apply_tx
                                 (pending (convertMigrationToMap ms) ksl (changelog db))))))
   \<and> MigrationService_ExecuteMigration
        (lib\<lparr>json_Decode := (\<lambda>f. map_option drop_repeats (json_Decode lib f))\<rparr>) env ks svc db =
      MigrationService_ExecuteMigration lib env ks svc db
   \<and> (readConfigFile lib svc = Inr ids \<and> getMigrations lib svc = (desired, None) \<longrightarrow>
        (\<forall>i v. desired i = Some v \<longleftrightarrow> i \<in> set ids \<and> extractMigration lib svc i = Inr v))
   \<and> (getMigrations lib svc = (desired, None) \<and> range_order desired ks \<and>
      MigrationService_ExecuteMigration lib env ks svc db = (r, db') \<longrightarrow>
        distinct (inserted_ids (new_trace db db')) \<and>
        set (inserted_ids (new_trace db db')) \<subseteq> dom desired - set (map row_id (changelog db)) \<and>
        distinct (map Id' (pending desired ks (changelog db))) \<and>
        set (map Id' (pending desired ks (changelog db))) =
          dom desired - set (map row_id (changelog db)) \<and>
        (\<forall>m\<in>set (pending desired ks (changelog db)).
           extractMigration lib svc (Id' m) = Inr m) \<and>
        (\<exists>t_walk t_apply.
           new_trace db db' = t_walk @ t_apply \<and> inserted_ids t_walk = [] \<and>
           set (executed_scripts t_walk) \<subseteq> set (map row_revertscript (changelog db)) \<and>
           (\<exists>n. inserted_ids t_apply = take n (map Id' (pending desired ks (changelog db)))) \<and>
           (\<exists>n. executed_scripts t_apply =
                  take n (map Script (pending desired ks (changelog db)))) \<and>
           (r = None \<longrightarrow>
              t_apply = concat (map apply_tx (pending desired ks (changelog db))))))"
proof (intro conjI impI)
  let ?rids = "set (map row_id (changelog db))"
  show "convertMigrationToMap ms k =
     (case filter (\<lambda>m. Id' m = k) ms of [] \<Rightarrow> None | y # ys \<Rightarrow> Some (last (y # ys)))"
    by (simp add: convertMigrationToMap_def convertMigrationToMap_loop_last)
  show "distinct (map Id' (range_values (convertMigrationToMap ms) ks))" if "distinct ks"
    using that range_values_ids[of "convertMigrationToMap ms" ks] convertMigrationToMap_key[of ms]
    by simp
  {
    assume a: "distinct ks \<and> getMigrations lib svc = (desired, None)"
    then have "\<forall>k v. desired k = Some v \<longrightarrow> Id' v = k"
      using getMigrations_key by blast
    then show "distinct (map Id' (range_values desired ks))"
      using range_values_ids[of desired ks] a by simp
  }
  show "ExecuteMigration env ks db (xs @ a # ys @ b # zs) =
        ExecuteMigration env ks db (xs @ ys @ b # zs)" if "Id' a = Id' b"
    using that by (rule legacy_run_drop_earlier)
  show "MigrationService_ExecuteMigration
        (lib\<lparr>json_Decode := (\<lambda>f. map_option drop_repeats (json_Decode lib f))\<rparr>) env ks svc db =
      MigrationService_ExecuteMigration lib env ks svc db"
    by (rule service_run_drop_repeats)
  show "\<forall>i v. desired i = Some v \<longleftrightarrow> i \<in> set ids \<and> extractMigration lib svc i = Inr v"
    if "readConfigFile lib svc = Inr ids \<and> getMigrations lib svc = (desired, None)"
    using that getMigrations_char[of lib svc ids desired] by blast
  {
    assume a: "range_order (convertMigrationToMap ms |` (- ?rids)) ksl \<and>
      ExecuteMigration env ksl db ms = (rl, dbl)"
    let ?wanted = "convertMigrationToMap ms"
    let ?p = "pending ?wanted ksl (changelog db)"
    have key: "\<forall>k v. ?wanted k = Some v \<longrightarrow> Id' v = k"
      using convertMigrationToMap_key by blast
    have rp: "range_values (?wanted |` (- ?rids)) ksl = ?p"
      using range_values_restrict[OF key, of ?rids ksl] by (simp add: pending_def)
    have pp: "distinct (map Id' ?p)" "set (map Id' ?p) = set (map Id' ms) - ?rids"
      using pending_legacy[OF key, of ?rids ksl] a rp dom_convertMigrationToMap[of ms]
      by simp_all
    from legacy_run_general[of env ksl db ms rl dbl] a
    obtain tw ta n j where g: "new_trace db dbl = tw @ ta" "inserted_ids tw = []"
      "set (executed_scripts tw) \<subseteq> set (map row_revertscript (changelog db))"
      "inserted_ids ta = take n (map Id' ?p)"
      "executed_scripts ta = take j (map Script ?p)"
      "rl = None \<longrightarrow> ta = concat (map legacy_apply_tx ?p)"
      using rp by auto
    have ins: "inserted_ids (new_trace db dbl) = take n (map Id' ?p)"
      using g(1,2,4) by simp
    show "distinct (inserted_ids (new_trace db dbl))"
      using take_props[OF ins pp(1)] by simp
    show "set (inserted_ids (new_trace db dbl)) \<subseteq> set (map Id' ms) - ?rids"
      using take_props[OF ins pp(1)] pp(2) by simp
    show "distinct (map Id' ?p)" by (rule pp(1))
    show "set (map Id' ?p) = set (map Id' ms) - ?rids" by (rule pp(2))
    show "\<forall>m\<in>set ?p. filter (\<lambda>x. Id' x = Id' m) ms \<noteq> [] \<and>
            m = last (filter (\<lambda>x. Id' x = Id' m) ms)"
    proof
      fix m assume "m \<in> set ?p"
      then obtain i where i: "?wanted i = Some m" using pending_mem by blast
      then have "Id' m = i" using key by blast
      then show "filter (\<lambda>x. Id' x = Id' m) ms \<noteq> [] \<and>
            m = last (filter (\<lambda>x. Id' x = Id' m) ms)"
        using convertMigrationToMap_value_is_last[OF i] by simp
    qed
    show "\<exists>t_walk t_apply.
           new_trace db dbl = t_walk @ t_apply \<and> inserted_ids t_walk = [] \<and>
           set (executed_scripts t_walk) \<subseteq> set (map row_revertscript (changelog db)) \<and>
           (\<exists>n. inserted_ids t_apply = take n (map Id' ?p)) \<and>
           (\<exists>n. executed_scripts t_apply = take n (map Script ?p)) \<and>
           (rl = None \<longrightarrow> t_apply = concat (map legacy_apply_tx ?p))"
      using g by blast
  }
  {
    assume a: "getMigrations lib svc = (desired, None) \<and> range_order desired ks \<and>
      MigrationService_ExecuteMigration lib env ks svc db = (r, db')"
    let ?p = "pending desired ks (changelog db)"
    have key: "\<forall>k v. desired k = Some v \<longrightarrow> Id' v = k"
      using a getMigrations_key by blast
    have pp: "distinct (map Id' ?p)" "set (map Id' ?p) = dom desired - ?rids"
      using pending_service[OF key, of ks ?rids] a by (simp_all add: pending_def)
    from service_run_general[of lib svc desired env ks db r db'] a
    obtain tw ta n j where g: "new_trace db db' = tw @ ta" "inserted_ids tw = []"
      "set (executed_scripts tw) \<subseteq> set (map row_revertscript (changelog db))"
      "inserted_ids ta = take n (map Id' ?p)"
      "executed_scripts ta = take j (map Script ?p)"
      "r = None \<longrightarrow> ta = concat (map apply_tx ?p)"
      unfolding pending_def by blast
    have ins: "inserted_ids (new_trace db db') = take n (map Id' ?p)"
      using g(1,2,4) by simp
    show "distinct (inserted_ids (new_trace db db'))"
      using take_props[OF ins pp(1)] by simp
    show "set (inserted_ids (new_trace db db')) \<subseteq> dom desired - ?rids"
      using take_props[OF ins pp(1)] pp(2) by simp
    show "distinct (map Id' ?p)" by (rule pp(1))
    show "set (map Id' ?p) = dom desired - ?rids" by (rule pp(2))
    show "\<forall>m\<in>set ?p. extractMigration lib svc (Id' m) = Inr m"
    proof
      fix m assume "m \<in> set ?p"
      then obtain i where i: "desired i = Some m" using pending_mem by blast
      then have im: "Id' m = i" using key by blast
      obtain ids where rc: "readConfigFile lib svc = Inr ids"
        using a by (cases "readConfigFile lib svc") (auto simp: getMigrations_def)
      have "extractMigration lib svc i = Inr m"
        using getMigrations_char[OF rc, of desired i m] a i by simp
      then show "extractMigration lib svc (Id' m) = Inr m" using im by simp
    qed
    show "\<exists>t_walk t_apply.
           new_trace db db' = t_walk @ t_apply \<and> inserted_ids t_walk = [] \<and>
           set (executed_scripts t_walk) \<subseteq> set (map row_revertscript (changelog db)) \<and>
           (\<exists>n. inserted_ids t_apply = take n (map Id' ?p)) \<and>
           (\<exists>n. executed_scripts t_apply = take n (map Script ?p)) \<and>
           (r = None \<longrightarrow> t_apply = concat (map apply_tx ?p))"
      using g by blast
  }
qed


text \<open>The theorem at a list, and at a config file, that declare the id \<^verbatim>\<open>A\<close> twice: the
  legacy run executes the script of the second declaration only, the service run executes
  the script of \<^verbatim>\<open>A\<close> once, and both return no error.\<close>

theorem duplicate_id_last_wins_witness:
  "convertMigrationToMap [ex_migration ''A'', (ex_migration ''A'')\<lparr>Script := ''other''\<rparr>] ''A'' =
     Some ((ex_migration ''A'')\<lparr>Script := ''other''\<rparr>)
   \<and> distinct (map Id' (range_values
        (convertMigrationToMap [ex_migration ''A'', (ex_migration ''A'')\<lparr>Script := ''other''\<rparr>])
        [''A'']))
   \<and> distinct (map Id' (range_values (fst (getMigrations (ex_lib [''A'', ''A'']) ex_svc))
        [''A'']))
   \<and> ExecuteMigration ex_env [''A''] (ex_db [])
        [ex_migration ''A'', (ex_migration ''A'')\<lparr>Script := ''other''\<rparr>] =
      ExecuteMigration ex_env [''A''] (ex_db []) [(ex_migration ''A'')\<lparr>Script := ''other''\<rparr>]
   \<and> fst (ExecuteMigration ex_env [''A''] (ex_db [])
        [ex_migration ''A'', (ex_migration ''A'')\<lparr>Script := ''other''\<rparr>]) = None
   \<and> executed_scripts (trace (snd (ExecuteMigration ex_env [''A''] (ex_db [])
        [ex_migration ''A'', (ex_migration ''A'')\<lparr>Script := ''other''\<rparr>]))) = [''other'']
   \<and> distinct (inserted_ids (new_trace (ex_db []) (snd (ExecuteMigration ex_env [''A'']
        (ex_db []) [ex_migration ''A'', (ex_migration ''A'')\<lparr>Script := ''other''\<rparr>]))))
   \<and> pending (convertMigrationToMap
                 [ex_migration ''A'', (ex_migration ''A'')\<lparr>Script := ''other''\<rparr>])
        [''A''] (changelog (ex_db [])) = [(ex_migration ''A'')\<lparr>Script := ''other''\<rparr>]
   \<and> fst (MigrationService_ExecuteMigration (ex_lib [''A'', ''A'']) ex_env [''A''] ex_svc
          (ex_db [])) = None
   \<and> executed_scripts (trace (snd (MigrationService_ExecuteMigration (ex_lib [''A'', ''A''])
          ex_env [''A''] ex_svc (ex_db [])))) = [''scripts/A.sql'']
   \<and> distinct (inserted_ids (new_trace (ex_db []) (snd (MigrationService_ExecuteMigration
          (ex_lib [''A'', ''A'']) ex_env [''A''] ex_svc (ex_db [])))))
   \<and> extractMigration (ex_lib [''A'', ''A'']) ex_svc ''A'' = Inr (ex_migration ''A'')"
proof -
  let ?A = "ex_migration ''A''"
  let ?B = "(ex_migration ''A'')\<lparr>Script := ''other''\<rparr>"
  let ?desired = "[''A'' \<mapsto> ?A]"
  let ?db = "ex_db []"
  note th = duplicate_id_last_wins[where ms = "[?A, ?B]" and k = "''A''" and ks = "[''A'']"
      and lib = "ex_lib [''A'', ''A'']" and svc = ex_svc and desired = ?desired
      and a = ?A and b = ?B and xs = "[]" and ys = "[]" and zs = "[]"
      and env = ex_env and db = ?db and ksl = "[''A'']" and ids = "[''A'', ''A'']"]
  have dk: "distinct [''A'']" by simp
  have same: "Id' ?A = Id' ?B" by simp
  have ro: "range_order ?desired [''A'']"
    by (auto simp: range_order_def)
  have rol: "range_order (convertMigrationToMap [?A, ?B] |` (- set (map row_id (changelog ?db))))
               [''A'']"
    unfolding ex_convert_dup by (auto simp: range_order_def ex_db_def)
  note c1 = th[THEN conjunct1]
  note c2 = th[THEN conjunct2, THEN conjunct1, THEN mp, OF dk]
  note c3 = th[THEN conjunct2, THEN conjunct2, THEN conjunct1, THEN mp,
      OF conjI[OF dk ex_getMigrations_AA]]
  note c4 = th[THEN conjunct2, THEN conjunct2, THEN conjunct2, THEN conjunct1, THEN mp, OF same]
  note c5 = th[THEN conjunct2, THEN conjunct2, THEN conjunct2, THEN conjunct2, THEN conjunct1,
      THEN mp, OF conjI[OF rol ex_run_legacy_dup]]
  note c7 = th[THEN conjunct2, THEN conjunct2, THEN conjunct2, THEN conjunct2, THEN conjunct2,
      THEN conjunct2, THEN conjunct1, THEN mp, OF conjI[OF ex_readConfigFile_AA ex_getMigrations_AA]]
  note c8 = th[THEN conjunct2, THEN conjunct2, THEN conjunct2, THEN conjunct2, THEN conjunct2,
      THEN conjunct2, THEN conjunct2, THEN mp,
      OF conjI[OF ex_getMigrations_AA conjI[OF ro ex_run_service_dup]]]
  have e: "extractMigration (ex_lib [''A'', ''A'']) ex_svc ''A'' = Inr ?A"
    using c7[THEN spec, THEN spec, of "''A''" "ex_migration ''A''"] by simp
  have p: "pending (convertMigrationToMap [?A, ?B]) [''A''] (changelog ?db) = [?B]"
    unfolding ex_convert_dup by (simp add: pending_def ex_db_def)
  have m1: "convertMigrationToMap [?A, ?B] ''A'' = Some ?B"
    using c1 by simp
  have r1: "ExecuteMigration ex_env [''A''] ?db [?A, ?B] = ExecuteMigration ex_env [''A''] ?db [?B]"
    using c4 by simp
  have d5: "distinct (inserted_ids (new_trace ?db (snd (ExecuteMigration ex_env [''A''] ?db [?A, ?B]))))"
    using c5 unfolding ex_run_legacy_dup by simp
  have d8: "distinct (inserted_ids (new_trace ?db (snd (MigrationService_ExecuteMigration
          (ex_lib [''A'', ''A'']) ex_env [''A''] ex_svc ?db))))"
    using c8 unfolding ex_run_service_dup by simp
  have g3: "distinct (map Id' (range_values (fst (getMigrations (ex_lib [''A'', ''A'']) ex_svc))
        [''A'']))"
    using c3 unfolding ex_getMigrations_AA by simp
  have l: "fst (ExecuteMigration ex_env [''A''] ?db [?A, ?B]) = None"
    "executed_scripts (trace (snd (ExecuteMigration ex_env [''A''] ?db [?A, ?B]))) = [''other'']"
    unfolding ex_run_legacy_dup by simp_all
  have s: "fst (MigrationService_ExecuteMigration (ex_lib [''A'', ''A'']) ex_env [''A''] ex_svc ?db)
             = None"
    "executed_scripts (trace (snd (MigrationService_ExecuteMigration (ex_lib [''A'', ''A''])
          ex_env [''A''] ex_svc ?db))) = [''scripts/A.sql'']"
    unfolding ex_run_service_dup by simp_all
  show ?thesis
    using m1 c2 g3 r1 l d5 p s d8 e by blast
qed


section \<open>The encoding of the checksum\<close>

text \<open>
  Claim C8 says that both loaders record the lower-case hexadecimal encoding of the MD5
  digest. \<open>extractMigration\<close> does (\<open>service_checksum_is_lower_case_hex\<close>: 32 characters
  of \<^verbatim>\<open>0123456789abcdef\<close>). \<open>ReadChangeLogFile\<close> of migrate.go records
  \<^verbatim>\<open>string(checksum[:])\<close>, the sixteen bytes of the digest themselves
  (\<open>legacy_checksum_is_sixteen_bytes\<close>). For an empty script, whose MD5 digest is
  \<^verbatim>\<open>d41d8cd98f00b204e9800998ecf8427e\<close>:
\<close>

theorem legacy_checksum_is_raw_digest:
  "ReadChangeLogFile ex_md5_lib ''changelog.json'' =
     ([\<lparr>Id' = ''T'', Script = [], RevertScript = [],
        Checksum = [CHR 0xD4, CHR 0x1D, CHR 0x8C, CHR 0xD9, CHR 0x8F, CHR 0x00, CHR 0xB2,
                    CHR 0x04, CHR 0xE9, CHR 0x80, CHR 0x09, CHR 0x98, CHR 0xEC, CHR 0xF8,
                    CHR 0x42, CHR 0x7E]\<rparr>], None)
   \<and> extractMigration ex_md5_lib ex_md5_svc ''T'' =
     Inr \<lparr>Id' = ''T'', Script = [], RevertScript = [],
          Checksum = ''d41d8cd98f00b204e9800998ecf8427e''\<rparr>"
proof -
  have h: "hex_EncodeToString (digest_bytes (0xd41d8cd98f00b204e9800998ecf8427e :: 128 word)) =
           ''d41d8cd98f00b204e9800998ecf8427e''"
    by (simp add: digest_bytes_def hextable_def upt_rec[of _ "numeral n" for n]
          drop_bit_eq_div take_bit_eq_mod unat_div unat_mod)
  have r: "bytes_string (digest_bytes (0xd41d8cd98f00b204e9800998ecf8427e :: 128 word)) =
       [CHR 0xD4, CHR 0x1D, CHR 0x8C, CHR 0xD9, CHR 0x8F, CHR 0x00, CHR 0xB2,
                    CHR 0x04, CHR 0xE9, CHR 0x80, CHR 0x09, CHR 0x98, CHR 0xEC, CHR 0xF8,
                    CHR 0x42, CHR 0x7E]"
    by (simp add: digest_bytes_def bytes_string_def upt_rec[of _ "numeral n" for n]
          drop_bit_eq_div unat_div unat_mod char_of_def bit_0)
  show ?thesis
    by (simp add: ReadChangeLogFile_def ex_md5_lib_def ex_md5_svc_def extractMigration_def
        readFileContent_def h r)
qed

section \<open>What the apply phase executes\<close>

text \<open>
  Claim C7. Take any run of \<open>MigrationService_ExecuteMigration\<close> or of \<open>ExecuteMigration\<close>
  of migrate.go, with any script outcomes and driver faults, the apply loop ranging over
  the map in an order \<open>ks\<close> that the runtime may choose. The ids for which the run sends
  an \<^verbatim>\<open>INSERT\<close> are distinct, desired, and absent from the changelog as it was read: no
  migration recorded in the changelog is applied again, and none is applied twice. The
  walk sends no \<^verbatim>\<open>INSERT\<close> and runs only revert scripts of the changelog; the scripts
  that the apply phase runs are an initial part of the scripts of the pending migrations.
  When the run returns no error, the apply phase is exactly one committed transaction
  for each pending migration, and the pending migrations are exactly the desired ones
  whose id is absent from the changelog, each once.
\<close>

theorem pending_applied_exactly_once:
  "(getMigrations lib svc = (desired, None) \<and> range_order desired ks \<and>
    MigrationService_ExecuteMigration lib env ks svc db = (r, db') \<longrightarrow>
      distinct (inserted_ids (new_trace db db')) \<and>
      set (inserted_ids (new_trace db db')) \<subseteq> dom desired - set (map row_id (changelog db)) \<and>
      (r = None \<longrightarrow>
         set (inserted_ids (new_trace db db')) = dom desired - set (map row_id (changelog db))) \<and>
      distinct (map Id' (pending desired ks (changelog db))) \<and>
      set (map Id' (pending desired ks (changelog db))) =
        dom desired - set (map row_id (changelog db)) \<and>
      (\<exists>t_walk t_apply.
         new_trace db db' = t_walk @ t_apply \<and> inserted_ids t_walk = [] \<and>
         set (executed_scripts t_walk) \<subseteq> set (map row_revertscript (changelog db)) \<and>
         (\<exists>n. executed_scripts t_apply =
                take n (map Script (pending desired ks (changelog db)))) \<and>
         (r = None \<longrightarrow>
            t_apply = concat (map apply_tx (pending desired ks (changelog db))))))
   \<and> (convertMigrationToMap ms = wanted \<and>
      range_order (wanted |` (- set (map row_id (changelog db)))) ksl \<and>
      ExecuteMigration env ksl db ms = (rl, dbl) \<longrightarrow>
      distinct (inserted_ids (new_trace db dbl)) \<and>
      set (inserted_ids (new_trace db dbl)) \<subseteq> dom wanted - set (map row_id (changelog db)) \<and>
      (rl = None \<longrightarrow>
         set (inserted_ids (new_trace db dbl)) = dom wanted - set (map row_id (changelog db))) \<and>
      distinct (map Id' (pending wanted ksl (changelog db))) \<and>
      set (map Id' (pending wanted ksl (changelog db))) =
        dom wanted - set (map row_id (changelog db)) \<and>
      (\<exists>t_walk t_apply.
         new_trace db dbl = t_walk @ t_apply \<and> inserted_ids t_walk = [] \<and>
         set (executed_scripts t_walk) \<subseteq> set (map row_revertscript (changelog db)) \<and>
         (\<exists>n. executed_scripts t_apply =
                take n (map Script (pending wanted ksl (changelog db)))) \<and>
         (rl = None \<longrightarrow>
            t_apply = concat (map legacy_apply_tx (pending wanted ksl (changelog db))))))"
proof (intro conjI impI)
  let ?ids = "set (map row_id (changelog db))"
  {
    assume a: "getMigrations lib svc = (desired, None) \<and> range_order desired ks \<and>
      MigrationService_ExecuteMigration lib env ks svc db = (r, db')"
    let ?p = "pending desired ks (changelog db)"
    have key: "\<forall>k v. desired k = Some v \<longrightarrow> Id' v = k"
      using a getMigrations_key by blast
    have pp: "distinct (map Id' ?p)" "set (map Id' ?p) = dom desired - ?ids"
      using pending_service[OF key, of ks ?ids] a by (simp_all add: pending_def)
    from service_run_general[of lib svc desired env ks db r db'] a
    obtain tw ta n k where g: "new_trace db db' = tw @ ta" "inserted_ids tw = []"
      "set (executed_scripts tw) \<subseteq> set (map row_revertscript (changelog db))"
      "inserted_ids ta = take n (map Id' ?p)"
      "executed_scripts ta = take k (map Script ?p)"
      "r = None \<longrightarrow> ta = concat (map apply_tx ?p)"
      unfolding pending_def by blast
    have ins: "inserted_ids (new_trace db db') = take n (map Id' ?p)"
      using g(1,2,4) by simp
    have full: "inserted_ids (concat (map apply_tx ms)) = map Id' ms" for ms
      by (induction ms) simp_all
    show "distinct (inserted_ids (new_trace db db'))"
      using take_props[OF ins pp(1)] by simp
    show "set (inserted_ids (new_trace db db')) \<subseteq> dom desired - ?ids"
      using take_props[OF ins pp(1)] pp(2) by simp
    show "set (inserted_ids (new_trace db db')) = dom desired - ?ids" if "r = None"
      using that g(1,2,6) full[of ?p] pp(2) by simp
    show "distinct (map Id' ?p)" by (rule pp(1))
    show "set (map Id' ?p) = dom desired - ?ids" by (rule pp(2))
    show "\<exists>t_walk t_apply.
         new_trace db db' = t_walk @ t_apply \<and> inserted_ids t_walk = [] \<and>
         set (executed_scripts t_walk) \<subseteq> set (map row_revertscript (changelog db)) \<and>
         (\<exists>n. executed_scripts t_apply = take n (map Script ?p)) \<and>
         (r = None \<longrightarrow> t_apply = concat (map apply_tx ?p))"
      using g(1,2,3,5,6) by blast
  }
  {
    assume a: "convertMigrationToMap ms = wanted \<and>
      range_order (wanted |` (- set (map row_id (changelog db)))) ksl \<and>
      ExecuteMigration env ksl db ms = (rl, dbl)"
    let ?p = "pending wanted ksl (changelog db)"
    have key: "\<forall>k v. wanted k = Some v \<longrightarrow> Id' v = k"
      using a convertMigrationToMap_key by blast
    have rp: "range_values (wanted |` (- ?ids)) ksl = ?p"
      using range_values_restrict[OF key, of ?ids ksl] by (simp add: pending_def)
    have pp: "distinct (map Id' ?p)" "set (map Id' ?p) = dom wanted - ?ids"
      using pending_legacy[OF key, of ?ids ksl] a rp by simp_all
    from legacy_run_general[of env ksl db ms rl dbl] a
    obtain tw ta n k where g: "new_trace db dbl = tw @ ta" "inserted_ids tw = []"
      "set (executed_scripts tw) \<subseteq> set (map row_revertscript (changelog db))"
      "inserted_ids ta = take n (map Id' ?p)"
      "executed_scripts ta = take k (map Script ?p)"
      "rl = None \<longrightarrow> ta = concat (map legacy_apply_tx ?p)"
      using rp by auto
    have ins: "inserted_ids (new_trace db dbl) = take n (map Id' ?p)"
      using g(1,2,4) by simp
    have full: "inserted_ids (concat (map legacy_apply_tx ms)) = map Id' ms" for ms
      by (induction ms) simp_all
    show "distinct (inserted_ids (new_trace db dbl))"
      using take_props[OF ins pp(1)] by simp
    show "set (inserted_ids (new_trace db dbl)) \<subseteq> dom wanted - ?ids"
      using take_props[OF ins pp(1)] pp(2) by simp
    show "set (inserted_ids (new_trace db dbl)) = dom wanted - ?ids" if "rl = None"
      using that g(1,2,6) full[of ?p] pp(2) by simp
    show "distinct (map Id' ?p)" by (rule pp(1))
    show "set (map Id' ?p) = dom wanted - ?ids" by (rule pp(2))
    show "\<exists>t_walk t_apply.
         new_trace db dbl = t_walk @ t_apply \<and> inserted_ids t_walk = [] \<and>
         set (executed_scripts t_walk) \<subseteq> set (map row_revertscript (changelog db)) \<and>
         (\<exists>n. executed_scripts t_apply = take n (map Script ?p)) \<and>
         (rl = None \<longrightarrow> t_apply = concat (map legacy_apply_tx ?p))"
      using g(1,2,3,5,6) by blast
  }
qed

text \<open>The theorem at a changelog that holds \<^verbatim>\<open>A\<close> when \<^verbatim>\<open>A\<close> and \<^verbatim>\<open>B\<close> are
  desired: only \<^verbatim>\<open>B\<close> is inserted.\<close>

theorem pending_applied_exactly_once_witness:
  "fst (MigrationService_ExecuteMigration (ex_lib [''A'', ''B'']) ex_env [''B'', ''A''] ex_svc
         (ex_db [ex_row ''A''])) = None
   \<and> distinct (inserted_ids (new_trace (ex_db [ex_row ''A''])
         (snd (MigrationService_ExecuteMigration (ex_lib [''A'', ''B'']) ex_env [''B'', ''A'']
                 ex_svc (ex_db [ex_row ''A''])))))
   \<and> set (inserted_ids (new_trace (ex_db [ex_row ''A''])
         (snd (MigrationService_ExecuteMigration (ex_lib [''A'', ''B'']) ex_env [''B'', ''A'']
                 ex_svc (ex_db [ex_row ''A'']))))) =
       dom (fst (getMigrations (ex_lib [''A'', ''B'']) ex_svc))
         - set (map row_id (changelog (ex_db [ex_row ''A''])))
   \<and> fst (ExecuteMigration ex_env [''B''] (ex_db [ex_row ''A''])
         [ex_migration ''A'', ex_migration ''B'']) = None
   \<and> distinct (inserted_ids (new_trace (ex_db [ex_row ''A''])
         (snd (ExecuteMigration ex_env [''B''] (ex_db [ex_row ''A''])
                 [ex_migration ''A'', ex_migration ''B'']))))
   \<and> set (inserted_ids (new_trace (ex_db [ex_row ''A''])
         (snd (ExecuteMigration ex_env [''B''] (ex_db [ex_row ''A''])
                 [ex_migration ''A'', ex_migration ''B''])))) =
       dom (convertMigrationToMap [ex_migration ''A'', ex_migration ''B''])
         - set (map row_id (changelog (ex_db [ex_row ''A''])))"
proof -
  let ?desired = "[''A'' \<mapsto> ex_migration ''A'', ''B'' \<mapsto> ex_migration ''B'']"
  let ?db = "ex_db [ex_row ''A'']"
  have ro: "range_order ?desired [''B'', ''A'']"
    by (auto simp: range_order_def)
  have ro2: "range_order (?desired |` (- set (map row_id (changelog ?db)))) [''B'']"
    by (auto simp: range_order_def ex_db_def restrict_map_def split: if_splits)
  note th = pending_applied_exactly_once[where lib = "ex_lib [''A'', ''B'']" and svc = ex_svc
      and desired = ?desired and ks = "[''B'', ''A'']" and env = ex_env and db = ?db
      and ms = "[ex_migration ''A'', ex_migration ''B'']" and wanted = ?desired
      and ksl = "[''B'']"]
  note s = th[THEN conjunct1, THEN mp, OF conjI[OF ex_getMigrations_AB conjI[OF ro ex_run_service_A]]]
  note l = th[THEN conjunct2, THEN mp, OF conjI[OF ex_convert_AB conjI[OF ro2 ex_run_legacy_A]]]
  show ?thesis
    using s l
    unfolding ex_run_service_A ex_run_legacy_A ex_getMigrations_AB ex_convert_AB
    by simp
qed

section \<open>A second run\<close>

text \<open>
  Claim C6 says that a second run after a successful one executes no script. For the
  service this holds (\<open>service_idempotent\<close>: after a run without error, a second run
  with the same desired set, under any driver and any order of the map, begins no
  transaction and leaves changelog and schema as they are). \<open>ExecuteMigration\<close> of
  migrate.go returns no error when a revert has failed, since it drops the result of
  \<open>revertScript\<close>; the entry is still in the changelog, and the second run executes
  its revert script again.
\<close>

theorem legacy_second_run_reverts_again:
  "fst (ExecuteMigration ex_env [] (ex_db [ex_row_failing ''U'']) []) = None
   \<and> executed_scripts
        (new_trace (snd (ExecuteMigration ex_env [] (ex_db [ex_row_failing ''U'']) []))
           (snd (ExecuteMigration ex_env []
                   (snd (ExecuteMigration ex_env [] (ex_db [ex_row_failing ''U'']) [])) []))) =
       [''FAIL'']"
  unfolding ex_legacy_first_run snd_conv fst_conv ex_legacy_second_run
  by (simp add: new_trace_def)

end
